theory Spec2Isabelle
  imports Complex_Main "HOL-Library.Char_ord" "HOL-Library.List_Lexorder"
begin

section \<open>Data model (models.py)\<close>

datatype ProcessingState = NEW | TRIAGED | METADATA_EXTRACTED | OA_VERIFIED | COMPLETED | FAILED

datatype OAColor = GOLD | GREEN | HYBRID | BRONZE | CLOSED | UNKNOWN

text \<open>The string value of each member of the enumeration \<open>OAColor\<close>.\<close>

fun OAColor_value :: "OAColor \<Rightarrow> string" where
  "OAColor_value GOLD = ''gold''"
| "OAColor_value GREEN = ''green''"
| "OAColor_value HYBRID = ''hybrid''"
| "OAColor_value BRONZE = ''bronze''"
| "OAColor_value CLOSED = ''closed''"
| "OAColor_value UNKNOWN = ''unknown''"

text \<open>
  The dataclass \<open>PaperMetadata\<close>. An \<open>Optional\<close> field is an option; \<open>None\<close> is
  Python's \<open>None\<close>. Strings are lists of 8-bit characters, read as the code points
  below 256.
\<close>

record PaperMetadata =
  title :: string
  authors :: "string list"
  doi :: "string option"
  arxiv_id :: "string option"
  publication_year :: "int option"
  journal :: "string option"
  abstract :: "string option"
  keywords' :: "string list"
  oa_status :: "OAColor option"
  oa_url :: "string option"
  license :: "string option"

text \<open>The constructor call \<open>PaperMetadata(title=t)\<close> with every default.\<close>

definition PaperMetadata_init :: "string \<Rightarrow> PaperMetadata" where
  "PaperMetadata_init t =
     \<lparr>title = t, authors = [], doi = None, arxiv_id = None, publication_year = None,
      journal = None, abstract = None, keywords' = [], oa_status = None, oa_url = None,
      license = None\<rparr>"

record ProcessingResult =
  url :: string
  state :: ProcessingState
  metadata :: "PaperMetadata option"
  error_message :: "string option"
  processing_time :: real

section \<open>Python values and strings\<close>

text \<open>Truthiness of an optional string: \<open>None\<close> and the empty string are false.\<close>

fun truthy :: "string option \<Rightarrow> bool" where
  "truthy None = False"
| "truthy (Some s) = (s \<noteq> [])"

text \<open>\<open>a or b\<close> for an optional string \<open>a\<close> and a string \<open>b\<close>.\<close>

fun or_str :: "string option \<Rightarrow> string \<Rightarrow> string" where
  "or_str None b = b"
| "or_str (Some a) b = (if a = [] then b else a)"

text \<open>\<open>a or b\<close> where both operands may be \<open>None\<close>: the second operand is the result
  whenever the first is false.\<close>

fun or_opt :: "string option \<Rightarrow> string option \<Rightarrow> string option" where
  "or_opt None b = b"
| "or_opt (Some a) b = (if a = [] then b else Some a)"

text \<open>Character classes of the \<open>re\<close> module on \<open>str\<close> patterns, for code points below 256.\<close>

definition is_digit :: "char \<Rightarrow> bool" where
  "is_digit c = (let n = (of_char c :: nat) in 48 \<le> n \<and> n \<le> 57)"

definition is_space :: "char \<Rightarrow> bool" where
  "is_space c = (let n = (of_char c :: nat) in
     (9 \<le> n \<and> n \<le> 13) \<or> (28 \<le> n \<and> n \<le> 32) \<or> n = 133 \<or> n = 160)"

definition is_alpha :: "char \<Rightarrow> bool" where
  "is_alpha c = (let n = (of_char c :: nat) in
     (65 \<le> n \<and> n \<le> 90) \<or> (97 \<le> n \<and> n \<le> 122) \<or> n = 170 \<or> n = 181 \<or> n = 186 \<or>
     (192 \<le> n \<and> n \<le> 214) \<or> (216 \<le> n \<and> n \<le> 246) \<or> (248 \<le> n \<and> n \<le> 255))"

definition is_numeric :: "char \<Rightarrow> bool" where
  "is_numeric c = (let n = (of_char c :: nat) in
     (48 \<le> n \<and> n \<le> 57) \<or> n = 178 \<or> n = 179 \<or> n = 185 \<or> (188 \<le> n \<and> n \<le> 190))"

text \<open>\<open>\w\<close>: alphanumeric or underscore.\<close>

definition is_word :: "char \<Rightarrow> bool" where
  "is_word c = (is_alpha c \<or> is_numeric c \<or> c = CHR ''_'')"

text \<open>\<open>s.startswith(p)\<close>, \<open>s.endswith(p)\<close> and \<open>p in s\<close>.\<close>

definition startswith :: "string \<Rightarrow> string \<Rightarrow> bool" where
  "startswith s p = (take (length p) s = p)"

definition endswith :: "string \<Rightarrow> string \<Rightarrow> bool" where
  "endswith s p = (length p \<le> length s \<and> drop (length s - length p) s = p)"

fun contains :: "string \<Rightarrow> string \<Rightarrow> bool" where
  "contains [] p = (p = [])"
| "contains (c # cs) p = (startswith (c # cs) p \<or> contains cs p)"

text \<open>\<open>s.rstrip(chars)\<close> and \<open>s.strip()\<close>.\<close>

definition rstrip :: "string \<Rightarrow> string \<Rightarrow> string" where
  "rstrip s chars = rev (dropWhile (\<lambda>c. c \<in> set chars) (rev s))"

definition strip :: "string \<Rightarrow> string" where
  "strip s = rev (dropWhile is_space (rev (dropWhile is_space s)))"

text \<open>\<open>str(n)\<close> for a non-negative integer.\<close>

fun str_nat :: "nat \<Rightarrow> string" where
  "str_nat n = (if n < 10 then [char_of (48 + n)]
                else str_nat (n div 10) @ [char_of (48 + n mod 10)])"

declare str_nat.simps [simp del]

section \<open>Exceptions, the outside world and effects\<close>

text \<open>
  A Python exception, with the text \<open>str(e)\<close> gives. \<open>OtherError\<close> stands for any
  exception of class \<open>Exception\<close> raised below the modelled code (JSON decoding, a
  transport error outside the gateway's handler, a malformed payload).
\<close>

datatype exn = AttributeError string | ZeroDivisionError string | OtherError string

fun str_exn :: "exn \<Rightarrow> string" where
  "str_exn (AttributeError s) = s"
| "str_exn (ZeroDivisionError s) = s"
| "str_exn (OtherError s) = s"

text \<open>The outbound HTTP requests the code can issue, by endpoint and key argument.\<close>

datatype request =
    Arxiv_query string int
  | Crossref_works string int
  | Crossref_work string
  | Unpaywall_lookup string string
  | OpenAlex_works string int
  | OpenAlex_work string
  | Artifact_fetch string

text \<open>
  The mutable world: the requests issued so far (oldest first), the number of readings
  of \<open>time.time()\<close> taken so far, the attribute \<open>_last_request_time\<close> of the API client,
  the arguments of the calls of \<open>time.sleep\<close> so far, and the files of the output
  directory by file name.
\<close>

record world =
  requests :: "request list"
  ticks :: nat
  last_request_time :: real
  sleeps :: "real list"
  files :: "string \<Rightarrow> string option"

text \<open>
  A computation with effects takes the world and returns either an exception or a
  value, with the world it leaves behind.
\<close>

type_synonym 'a io = "world \<Rightarrow> (exn + 'a) \<times> world"

definition io_return :: "'a \<Rightarrow> 'a io" where
  "io_return x = (\<lambda>w. (Inr x, w))"

definition io_raise :: "exn \<Rightarrow> 'a io" where
  "io_raise e = (\<lambda>w. (Inl e, w))"

definition io_bind :: "'a io \<Rightarrow> ('a \<Rightarrow> 'b io) \<Rightarrow> 'b io" where
  "io_bind m f = (\<lambda>w. case m w of (Inl e, w') \<Rightarrow> (Inl e, w') | (Inr x, w') \<Rightarrow> f x w')"

text \<open>\<open>try: m except Exception as e: h(e)\<close>.\<close>

definition io_catch :: "'a io \<Rightarrow> (exn \<Rightarrow> 'a io) \<Rightarrow> 'a io" where
  "io_catch m h = (\<lambda>w. case m w of (Inl e, w') \<Rightarrow> h e w' | (Inr x, w') \<Rightarrow> (Inr x, w'))"

text \<open>A computation that only returns a value or raises, and leaves the world alone.\<close>

definition io_lift :: "exn + 'a \<Rightarrow> 'a io" where
  "io_lift x = (\<lambda>w. (x, w))"

text \<open>
  \<open>session.get\<close> and the reading of the response: the request is logged, and the answer
  is what the host gives. No clock is read here.
\<close>

definition session_get :: "request \<Rightarrow> (exn + 'a) \<Rightarrow> 'a io" where
  "session_get req answer = (\<lambda>w. (answer, w\<lparr>requests := requests w @ [req]\<rparr>))"

text \<open>The rest of a pure computation runs when its first part raised nothing.\<close>

definition sum_bind :: "exn + 'a \<Rightarrow> ('a \<Rightarrow> exn + 'b) \<Rightarrow> exn + 'b" where
  "sum_bind x f = (case x of Inl e \<Rightarrow> Inl e | Inr a \<Rightarrow> f a)"

text \<open>A \<open>for\<close> loop over a list whose body updates the loop state and may raise.\<close>

fun for_each :: "('a \<Rightarrow> 's \<Rightarrow> 's io) \<Rightarrow> 'a list \<Rightarrow> 's \<Rightarrow> 's io" where
  "for_each body [] s = io_return s"
| "for_each body (x # xs) s = io_bind (body x s) (for_each body xs)"

section \<open>Regular expressions of the source\<close>

text \<open>
  Each pattern of the source is a function that tells whether, and with which text, the
  pattern matches at the start of a string. \<open>re.search\<close> tries the positions from the
  left; \<open>re.findall\<close> and \<open>re.sub\<close> go on after the end of each match.
\<close>

fun re_search :: "(string \<Rightarrow> string option) \<Rightarrow> string \<Rightarrow> string option" where
  "re_search pat [] = pat []"
| "re_search pat (c # cs) = (case pat (c # cs) of Some m \<Rightarrow> Some m | None \<Rightarrow> re_search pat cs)"

text \<open>The counter is the number of characters still covered by the last match.\<close>

fun findall_from :: "(string \<Rightarrow> string option) \<Rightarrow> nat \<Rightarrow> string \<Rightarrow> string list" where
  "findall_from pat k [] = []"
| "findall_from pat (Suc k) (c # cs) = findall_from pat k cs"
| "findall_from pat 0 (c # cs) =
     (case pat (c # cs) of
        Some m \<Rightarrow> m # findall_from pat (length m - 1) cs
      | None \<Rightarrow> findall_from pat 0 cs)"

definition findall :: "(string \<Rightarrow> string option) \<Rightarrow> string \<Rightarrow> string list" where
  "findall pat s = findall_from pat 0 s"

text \<open>\<open>/fig-\d+|/table-\d+|/supp-\d+\<close>: one of the three words, then at least one digit.\<close>

definition word_digits_at :: "string \<Rightarrow> string \<Rightarrow> string option" where
  "word_digits_at lit s =
     (if startswith s lit then
        (let ds = takeWhile is_digit (drop (length lit) s)
         in if ds = [] then None else Some (lit @ ds))
      else None)"

definition figure_at :: "string \<Rightarrow> string option" where
  "figure_at s =
     (case word_digits_at ''/fig-'' s of Some m \<Rightarrow> Some m | None \<Rightarrow>
      (case word_digits_at ''/table-'' s of Some m \<Rightarrow> Some m | None \<Rightarrow>
       word_digits_at ''/supp-'' s))"

text \<open>
  \<open>10\.\d{4,9}/[^\s]+\<close>. The digits are followed by a slash, which is no digit, so the
  only run of digits that can match is the whole run, when it has 4 to 9 digits.
\<close>

definition doi_at :: "string \<Rightarrow> string option" where
  "doi_at s =
     (if startswith s ''10.'' then
        (let ds = takeWhile is_digit (drop 3 s);
             r = drop (3 + length ds) s
         in if 4 \<le> length ds \<and> length ds \<le> 9 \<and> startswith r ''/'' then
              (let body = takeWhile (\<lambda>c. \<not> is_space c) (drop 1 r)
               in if body = [] then None else Some (''10.'' @ ds @ ''/'' @ body))
            else None)
      else None)"

text \<open>\<open>https?://[^\s<>"]+\<close>.\<close>

definition url_char :: "char \<Rightarrow> bool" where
  "url_char c = (\<not> is_space c \<and> c \<noteq> CHR ''<'' \<and> c \<noteq> CHR ''>'' \<and> c \<noteq> CHR 0x22)"

definition url_at :: "string \<Rightarrow> string option" where
  "url_at s =
     (let scheme = (if startswith s ''https://'' then ''https://''
                    else if startswith s ''http://'' then ''http://'' else [])
      in if scheme = [] then None
         else (let body = takeWhile url_char (drop (length scheme) s)
               in if body = [] then None else Some (scheme @ body)))"

text \<open>
  \<open>arxiv\.org/abs/(.+)\<close> and \<open>arxiv\.org/abs/(\S+)\<close>; the result is group 1. The dot
  matches every character but the newline.
\<close>

definition arxiv_abs_at :: "(char \<Rightarrow> bool) \<Rightarrow> string \<Rightarrow> string option" where
  "arxiv_abs_at cls s =
     (if startswith s ''arxiv.org/abs/'' then
        (let g = takeWhile cls (drop 14 s) in if g = [] then None else Some g)
      else None)"

definition not_newline :: "char \<Rightarrow> bool" where
  "not_newline c = (c \<noteq> CHR 0x0A)"

definition not_space :: "char \<Rightarrow> bool" where
  "not_space c = (\<not> is_space c)"

text \<open>\<open>re.sub(r"<[^>]+>", "", s)\<close>: a tag is \<open><\<close>, at least one character other
  than \<open>>\<close>, and \<open>>\<close>; \<open>tag_length\<close> is the length of the tag after its \<open><\<close>.\<close>

definition tag_length :: "string \<Rightarrow> nat option" where
  "tag_length s =
     (let body = takeWhile (\<lambda>c. c \<noteq> CHR ''>'') s
      in if body \<noteq> [] \<and> length body < length s then Some (length body + 1) else None)"

fun sub_tags :: "nat \<Rightarrow> string \<Rightarrow> string" where
  "sub_tags k [] = []"
| "sub_tags (Suc k) (c # cs) = sub_tags k cs"
| "sub_tags 0 (c # cs) =
     (if c = CHR ''<'' then
        (case tag_length cs of Some n \<Rightarrow> sub_tags n cs | None \<Rightarrow> c # sub_tags 0 cs)
      else c # sub_tags 0 cs)"

text \<open>\<open>s.replace(old, new)\<close> for a non-empty \<open>old\<close>.\<close>

fun replace_from :: "string \<Rightarrow> string \<Rightarrow> nat \<Rightarrow> string \<Rightarrow> string" where
  "replace_from old new k [] = []"
| "replace_from old new (Suc k) (c # cs) = replace_from old new k cs"
| "replace_from old new 0 (c # cs) =
     (if startswith (c # cs) old then new @ replace_from old new (length old - 1) cs
      else c # replace_from old new 0 cs)"

definition replace :: "string \<Rightarrow> string \<Rightarrow> string \<Rightarrow> string" where
  "replace s old new = replace_from old new 0 s"

text \<open>
  \<open>int(s)\<close> on a string: surrounding whitespace, an optional sign, and decimal digits
  with single underscores between them. \<open>None\<close> is \<open>ValueError\<close>.
\<close>

fun int_digits :: "bool \<Rightarrow> nat \<Rightarrow> string \<Rightarrow> nat option" where
  "int_digits prev acc [] = (if prev then Some acc else None)"
| "int_digits prev acc (c # cs) =
     (if is_digit c then int_digits True (10 * acc + (of_char c - 48)) cs
      else if c = CHR ''_'' \<and> prev \<and> cs \<noteq> [] then int_digits False acc cs
      else None)"

definition py_int :: "string \<Rightarrow> int option" where
  "py_int s =
     (case strip s of
        [] \<Rightarrow> None
      | c # cs \<Rightarrow>
          if c = CHR ''-'' then map_option (\<lambda>n. - int n) (int_digits False 0 cs)
          else if c = CHR ''+'' then map_option int (int_digits False 0 cs)
          else map_option int (int_digits False 0 (c # cs)))"

section \<open>Provider payloads and adapters (apis.py)\<close>

text \<open>
  The JSON and XML payloads are typed: a key that may be missing is an option or an
  empty list, as the \<open>.get\<close> defaults of the source read it.
\<close>

record crossref_author =
  given :: "string option"
  family :: "string option"

record crossref_item =
  ci_title :: "string list"
  ci_DOI :: "string option"
  ci_author :: "crossref_author list"
  ci_published_print :: "int list list option"
  ci_published_online :: "int list list option"
  ci_created :: "int list list option"
  ci_container_title :: "string list"
  ci_abstract :: "string option"

text \<open>
  The \<open>date-parts\<close> of one date field, \<open>[[]]\<close> when missing; the year is taken when
  \<open>parts and parts[0] and parts[0][0]\<close> holds.
\<close>

fun year_of_parts :: "int list list option \<Rightarrow> int option" where
  "year_of_parts None = None"
| "year_of_parts (Some []) = None"
| "year_of_parts (Some ([] # ps)) = None"
| "year_of_parts (Some ((y # ys) # ps)) = (if y = 0 then None else Some y)"

definition crossref_year :: "crossref_item \<Rightarrow> int option" where
  "crossref_year item =
     (case year_of_parts (ci_published_print item) of Some y \<Rightarrow> Some y | None \<Rightarrow>
      (case year_of_parts (ci_published_online item) of Some y \<Rightarrow> Some y | None \<Rightarrow>
       year_of_parts (ci_created item)))"

definition crossref_author_name :: "crossref_author \<Rightarrow> string" where
  "crossref_author_name a = strip (or_str (given a) [] @ '' '' @ or_str (family a) [])"

definition crossref_abstract :: "crossref_item \<Rightarrow> string option" where
  "crossref_abstract item =
     (if truthy (ci_abstract item) then
        (let a = strip (sub_tags 0 (or_str (ci_abstract item) []))
         in if a = [] then None else Some a)
      else None)"

text \<open>\<open>crossref_to_metadata\<close>: \<open>None\<close> for a figure, table or supplement DOI.\<close>

definition crossref_to_metadata :: "crossref_item \<Rightarrow> PaperMetadata option" where
  "crossref_to_metadata item =
     (let title_list = ci_title item;
          t = (case title_list of [] \<Rightarrow> ''Unknown'' | x # xs \<Rightarrow> x);
          d = or_str (ci_DOI item) []
      in if re_search figure_at d \<noteq> None then None
         else Some
           \<lparr>title = t,
            authors = filter (\<lambda>n. n \<noteq> []) (map crossref_author_name (ci_author item)),
            doi = ci_DOI item,
            arxiv_id = None,
            publication_year = crossref_year item,
            journal = (case ci_container_title item of [] \<Rightarrow> None | j # js \<Rightarrow> Some j),
            abstract = crossref_abstract item,
            keywords' = [],
            oa_status = None,
            oa_url = None,
            license = None\<rparr>)"

record oa_location =
  url_for_pdf :: "string option"
  loc_url :: "string option"
  loc_license :: "string option"

record unpaywall_data =
  up_is_oa :: bool
  up_oa_status :: "string option"
  up_best_oa_location :: "oa_location option"

record oa_info =
  info_status :: OAColor
  info_url :: "string option"
  info_license :: "string option"

text \<open>\<open>status_map.get(data.get("oa_status", ""), OAColor.UNKNOWN)\<close>.\<close>

definition status_map :: "string \<Rightarrow> OAColor" where
  "status_map s =
     (if s = ''gold'' then GOLD else if s = ''green'' then GREEN
      else if s = ''hybrid'' then HYBRID else if s = ''bronze'' then BRONZE
      else UNKNOWN)"

definition unpaywall_oa_info :: "unpaywall_data \<Rightarrow> oa_info" where
  "unpaywall_oa_info data =
     (if \<not> up_is_oa data then
        \<lparr>info_status = CLOSED, info_url = None, info_license = None\<rparr>
      else
        (let oa_color = status_map (case up_oa_status data of None \<Rightarrow> [] | Some s \<Rightarrow> s)
         in case up_best_oa_location data of
              None \<Rightarrow> \<lparr>info_status = oa_color, info_url = None, info_license = None\<rparr>
            | Some best \<Rightarrow>
                \<lparr>info_status = oa_color,
                 info_url = or_opt (url_for_pdf best) (loc_url best),
                 info_license = loc_license best\<rparr>))"

record open_access =
  is_oa :: bool
  oa_url_field :: "string option"

text \<open>
  An OpenAlex work; \<open>oi_journal\<close> is the display name of the source of the primary
  location, \<open>None\<close> when any level of that path is missing.
\<close>

record openalex_item =
  oi_title :: "string option"
  oi_author_names :: "string option list"
  oi_publication_year :: "int option"
  oi_journal :: "string option"
  oi_doi :: "string option"
  oi_open_access :: "open_access option"

definition openalex_doi :: "string option \<Rightarrow> string option" where
  "openalex_doi d =
     (case d of
        None \<Rightarrow> None
      | Some s \<Rightarrow>
          if s \<noteq> [] \<and> startswith s ''https://doi.org/''
          then Some (drop (length ''https://doi.org/'') s) else Some s)"

definition openalex_to_metadata :: "openalex_item \<Rightarrow> PaperMetadata" where
  "openalex_to_metadata item =
     \<lparr>title = or_str (oi_title item) ''Unknown'',
      authors = map (\<lambda>n. or_str n []) (filter truthy (oi_author_names item)),
      doi = openalex_doi (oi_doi item),
      arxiv_id = None,
      publication_year = oi_publication_year item,
      journal = oi_journal item,
      abstract = None,
      keywords' = [],
      oa_status = (case oi_open_access item of
                     None \<Rightarrow> None
                   | Some oa \<Rightarrow> if is_oa oa then Some GREEN else None),
      oa_url = (case oi_open_access item of None \<Rightarrow> None | Some oa \<Rightarrow> oa_url_field oa),
      license = None\<rparr>"

text \<open>
  An element of the arXiv feed with its \<open>text\<close>, which is \<open>None\<close> for an element
  without content. One \<open>atom:entry\<close> has, each when it is there, a title, a summary, an
  id and a publication date; one name element or none for each of its authors; and the
  element \<open>arxiv:doi\<close> of a paper that has a DOI, which \<open>arxiv_search\<close> does not read.
\<close>

datatype xml_element = Element "string option"

record arxiv_entry =
  ae_title :: "xml_element option"
  ae_author_names :: "xml_element option list"
  ae_summary :: "xml_element option"
  ae_id :: "xml_element option"
  ae_published :: "xml_element option"
  ae_doi :: "xml_element option"

definition none_has_no_strip :: exn where
  "none_has_no_strip =
     AttributeError (CHR 0x27 # ''NoneType'' @ CHR 0x27 # '' object has no attribute '' @
                     CHR 0x27 # ''strip'' @ [CHR 0x27])"

text \<open>\<open>el.text.strip()\<close>: on an element without content \<open>el.text\<close> is \<open>None\<close>.\<close>

fun text_strip :: "xml_element \<Rightarrow> exn + string" where
  "text_strip (Element None) = Inl none_has_no_strip"
| "text_strip (Element (Some t)) = Inr (strip t)"

text \<open>The loop over the authors of an entry: an author without a name element is left out.\<close>

fun author_names :: "xml_element option list \<Rightarrow> exn + string list" where
  "author_names [] = Inr []"
| "author_names (None # rest) = author_names rest"
| "author_names (Some el # rest) =
     sum_bind (text_strip el) (\<lambda>name. sum_bind (author_names rest) (\<lambda>names. Inr (name # names)))"

text \<open>
  \<open>int(published_el.text[:4])\<close> inside \<open>try ... except (ValueError, TypeError)\<close>: slicing
  \<open>None\<close> is a \<open>TypeError\<close>, and the year stays \<open>None\<close>.
\<close>

fun published_year :: "xml_element option \<Rightarrow> int option" where
  "published_year None = None"
| "published_year (Some (Element None)) = None"
| "published_year (Some (Element (Some p))) = py_int (take 4 p)"

text \<open>The body of the loop of \<open>arxiv_search\<close> over the entries.\<close>

definition arxiv_entry_to_metadata :: "arxiv_entry \<Rightarrow> exn + PaperMetadata" where
  "arxiv_entry_to_metadata entry =
     sum_bind (case ae_title entry of
                 None \<Rightarrow> Inr ''Unknown''
               | Some el \<Rightarrow> sum_bind (text_strip el)
                             (\<lambda>t. Inr (map (\<lambda>c. if c = CHR 0x0A then CHR '' '' else c) t)))
       (\<lambda>title'.
     sum_bind (author_names (ae_author_names entry)) (\<lambda>authors'.
     sum_bind (case ae_summary entry of
                 None \<Rightarrow> Inr None
               | Some el \<Rightarrow> sum_bind (text_strip el) (\<lambda>a. Inr (Some a)))
       (\<lambda>abstract'.
     sum_bind (case ae_id entry of None \<Rightarrow> Inr [] | Some el \<Rightarrow> text_strip el)
       (\<lambda>arxiv_url.
     Inr \<lparr>title = title',
          authors = authors',
          doi = None,
          arxiv_id = re_search (arxiv_abs_at not_newline) arxiv_url,
          publication_year = published_year (ae_published entry),
          journal = None,
          abstract = abstract',
          keywords' = [],
          oa_status = Some GREEN,
          oa_url = (if arxiv_url \<noteq> [] then Some (replace arxiv_url ''/abs/'' ''/pdf/'')
                    else None),
          license = None\<rparr>))))"

text \<open>The whole loop: the first entry that raises ends it.\<close>

fun arxiv_results :: "arxiv_entry list \<Rightarrow> exn + PaperMetadata list" where
  "arxiv_results [] = Inr []"
| "arxiv_results (entry # entries) =
     sum_bind (arxiv_entry_to_metadata entry)
       (\<lambda>m. sum_bind (arxiv_results entries) (\<lambda>ms. Inr (m # ms)))"

text \<open>One result of the CORE index, and the body of the loop of \<open>core_search\<close>.\<close>

record core_item =
  co_title :: "string option"
  co_author_names :: "string option list"
  co_doi :: "string option"
  co_yearPublished :: "int option"
  co_publisher :: "string option"
  co_abstract :: "string option"
  co_downloadUrl :: "string option"
  co_sourceFulltextUrls :: "string list option"

definition core_dl_url :: "core_item \<Rightarrow> string option" where
  "core_dl_url item =
     (if truthy (co_downloadUrl item) then co_downloadUrl item
      else (case co_sourceFulltextUrls item of
              None \<Rightarrow> None
            | Some [] \<Rightarrow> None
            | Some (u # us) \<Rightarrow> Some u))"

definition core_item_to_metadata :: "core_item \<Rightarrow> PaperMetadata" where
  "core_item_to_metadata item =
     (let dl_url = core_dl_url item
      in \<lparr>title = (case co_title item of None \<Rightarrow> ''Unknown'' | Some t \<Rightarrow> t),
           authors = map (\<lambda>n. case n of None \<Rightarrow> [] | Some a \<Rightarrow> a) (co_author_names item),
           doi = co_doi item,
           arxiv_id = None,
           publication_year = co_yearPublished item,
           journal = co_publisher item,
           abstract = co_abstract item,
           keywords' = [],
           oa_status = (if truthy dl_url then Some GREEN else None),
           oa_url = dl_url,
           license = None\<rparr>)"

text \<open>
  What the providers answer, after the gateway and the decoding of the body: an
  exception raised on the way, or the decoded payload. A failed request (the gateway
  returns \<open>None\<close>) is the empty list for a search and \<open>None\<close> for a lookup; \<open>None\<close> also
  stands for an empty JSON object, which the source tests as false. \<open>artifact\<close> is the
  answer of \<open>session.get\<close> on a full-text location: the response, whose body arrives in
  chunks and may break off with an exception after them. \<open>clock\<close> gives the successive
  readings of \<open>time.time()\<close>.
\<close>

record response =
  status_code :: int
  content_type_header :: "string option"
  chunks :: "string list"
  stream_error :: "exn option"

record providers =
  arxiv_feed :: "string \<Rightarrow> int \<Rightarrow> exn + arxiv_entry list"
  crossref_works :: "string \<Rightarrow> int \<Rightarrow> exn + crossref_item list"
  crossref_work :: "string \<Rightarrow> exn + crossref_item option"
  unpaywall_record :: "string \<Rightarrow> string \<Rightarrow> exn + unpaywall_data option"
  openalex_works :: "string \<Rightarrow> int \<Rightarrow> exn + openalex_item list"
  openalex_work :: "string \<Rightarrow> exn + openalex_item option"
  artifact :: "string \<Rightarrow> exn + response"
  clock :: "nat \<Rightarrow> real"

text \<open>The keys of the configuration that the modelled code reads.\<close>

record config =
  contact_email :: string
  rate_limit_per_second :: real

section \<open>The rate-limited gateway (apis.py)\<close>

text \<open>\<open>time.time()\<close> takes the next reading of the clock; \<open>time.sleep\<close> is recorded.\<close>

definition time_time :: "providers \<Rightarrow> real io" where
  "time_time net = (\<lambda>w. (Inr (clock net (ticks w)), w\<lparr>ticks := Suc (ticks w)\<rparr>))"

definition time_sleep :: "real \<Rightarrow> unit io" where
  "time_sleep secs = (\<lambda>w. (Inr (), w\<lparr>sleeps := sleeps w @ [secs]\<rparr>))"

text \<open>\<open>self.rate_delay = 1.0 / max(config.get("rate_limit_per_second", 1), 0.1)\<close>.\<close>

definition rate_delay :: "config \<Rightarrow> real" where
  "rate_delay cfg = 1 / max (rate_limit_per_second cfg) (1 / 10)"

text \<open>
  \<open>_throttle\<close>: one reading of the clock for the time elapsed since the last request, a
  sleep when that is less than the delay, and a second reading, kept as the time of the
  last request.
\<close>

definition throttle :: "config \<Rightarrow> providers \<Rightarrow> unit io" where
  "throttle cfg net =
     io_bind (time_time net) (\<lambda>now.
     io_bind (\<lambda>w. (Inr (now - last_request_time w), w)) (\<lambda>elapsed.
     io_bind (if elapsed < rate_delay cfg then time_sleep (rate_delay cfg - elapsed)
              else io_return ()) (\<lambda>_.
     io_bind (time_time net) (\<lambda>now'.
     (\<lambda>w. (Inr (), w\<lparr>last_request_time := now'\<rparr>))))))"

text \<open>
  \<open>_get\<close> and the reading of the response by the caller: the throttle, then the
  request.
\<close>

definition gateway_get :: "config \<Rightarrow> providers \<Rightarrow> request \<Rightarrow> (exn + 'a) \<Rightarrow> 'a io" where
  "gateway_get cfg net req answer = io_bind (throttle cfg net) (\<lambda>_. session_get req answer)"

definition arxiv_search :: "config \<Rightarrow> providers \<Rightarrow> string \<Rightarrow> int \<Rightarrow> PaperMetadata list io" where
  "arxiv_search cfg net query max_results =
     io_bind (gateway_get cfg net (Arxiv_query query max_results)
                (arxiv_feed net query max_results))
       (\<lambda>entries. io_lift (arxiv_results entries))"

definition crossref_search :: "config \<Rightarrow> providers \<Rightarrow> string \<Rightarrow> int \<Rightarrow> crossref_item list io" where
  "crossref_search cfg net query max_results =
     gateway_get cfg net (Crossref_works query max_results)
       (crossref_works net query max_results)"

definition crossref_lookup_doi :: "config \<Rightarrow> providers \<Rightarrow> string \<Rightarrow> crossref_item option io" where
  "crossref_lookup_doi cfg net d = gateway_get cfg net (Crossref_work d) (crossref_work net d)"

definition openalex_search :: "config \<Rightarrow> providers \<Rightarrow> string \<Rightarrow> int \<Rightarrow> openalex_item list io" where
  "openalex_search cfg net query max_results =
     gateway_get cfg net (OpenAlex_works query (min max_results 200))
       (openalex_works net query (min max_results 200))"

definition openalex_lookup_doi :: "config \<Rightarrow> providers \<Rightarrow> string \<Rightarrow> openalex_item option io" where
  "openalex_lookup_doi cfg net d = gateway_get cfg net (OpenAlex_work d) (openalex_work net d)"

text \<open>\<open>unpaywall_check\<close>: without a contact email no request is made.\<close>

definition unpaywall_check :: "config \<Rightarrow> providers \<Rightarrow> string \<Rightarrow> unpaywall_data option io" where
  "unpaywall_check cfg net d =
     (if contact_email cfg = [] then io_return None
      else gateway_get cfg net (Unpaywall_lookup d (contact_email cfg))
             (unpaywall_record net d (contact_email cfg)))"

section \<open>OA enrichment (framework.py)\<close>

text \<open>The OpenAlex fallback, the last part of \<open>_enrich_oa\<close>.\<close>

definition openalex_fallback ::
  "config \<Rightarrow> providers \<Rightarrow> string \<Rightarrow> PaperMetadata \<Rightarrow> PaperMetadata io" where
  "openalex_fallback cfg net d meta =
     io_bind (openalex_lookup_doi cfg net d)
       (\<lambda>oalex. case oalex of
          None \<Rightarrow> io_return meta
        | Some item \<Rightarrow>
            (case oi_open_access item of
               None \<Rightarrow> io_return meta
             | Some oa \<Rightarrow>
                 if is_oa oa
                 then io_return (meta\<lparr>oa_status := Some GREEN, oa_url := oa_url_field oa\<rparr>)
                 else io_return meta))"

definition enrich_oa :: "config \<Rightarrow> providers \<Rightarrow> PaperMetadata \<Rightarrow> PaperMetadata io" where
  "enrich_oa cfg net meta =
     (if \<not> truthy (doi meta) then io_return meta
      else
        (let d = or_str (doi meta) []
         in if contact_email cfg \<noteq> [] then
              io_bind (unpaywall_check cfg net d)
                (\<lambda>data. case data of
                   Some dat \<Rightarrow>
                     (let oa = unpaywall_oa_info dat
                      in io_return (meta\<lparr>oa_status := Some (info_status oa),
                                         oa_url := info_url oa,
                                         license := info_license oa\<rparr>))
                 | None \<Rightarrow> openalex_fallback cfg net d meta)
            else openalex_fallback cfg net d meta))"

section \<open>Ad-hoc search (framework.py)\<close>

text \<open>The loop state of \<open>search_ad_hoc\<close>: \<open>results\<close> and \<open>seen_keys\<close>.\<close>

type_synonym search_state = "ProcessingResult list \<times> string set"

definition none_has_no_doi :: exn where
  "none_has_no_doi =
     AttributeError (CHR 0x27 # ''NoneType'' @ CHR 0x27 # '' object has no attribute '' @
                     CHR 0x27 # ''doi'' @ [CHR 0x27])"

definition arxiv_result :: "PaperMetadata \<Rightarrow> ProcessingResult" where
  "arxiv_result meta =
     \<lparr>url = (if truthy (arxiv_id meta) then ''https://arxiv.org/abs/'' @ or_str (arxiv_id meta) []
             else []),
      state = COMPLETED, metadata = Some meta, error_message = None, processing_time = 0\<rparr>"

text \<open>The result built at the end of the Crossref and of the OpenAlex loop body.\<close>

definition doi_result :: "PaperMetadata \<Rightarrow> ProcessingResult" where
  "doi_result meta =
     \<lparr>url = (if truthy (doi meta) then ''https://doi.org/'' @ or_str (doi meta) [] else []),
      state = (if truthy (oa_url meta) then COMPLETED else METADATA_EXTRACTED),
      metadata = Some meta, error_message = None, processing_time = 0\<rparr>"

definition arxiv_step :: "PaperMetadata \<Rightarrow> search_state \<Rightarrow> search_state io" where
  "arxiv_step meta st =
     (case st of (results, seen_keys) \<Rightarrow>
        (let key = or_str (arxiv_id meta) (title meta)
         in if key \<in> seen_keys then io_return (results, seen_keys)
            else io_return (results @ [arxiv_result meta], insert key seen_keys)))"

text \<open>
  The Crossref loop body. When \<open>crossref_to_metadata\<close> returns \<open>None\<close>, reading
  \<open>meta.doi\<close> raises \<open>AttributeError\<close>.
\<close>

definition crossref_step :: "config \<Rightarrow> providers \<Rightarrow> crossref_item \<Rightarrow> search_state \<Rightarrow> search_state io" where
  "crossref_step cfg net item st =
     (case st of (results, seen_keys) \<Rightarrow>
        (case crossref_to_metadata item of
           None \<Rightarrow> io_raise none_has_no_doi
         | Some meta \<Rightarrow>
             if truthy (doi meta) \<and> or_str (doi meta) [] \<in> seen_keys
             then io_return (results, seen_keys)
             else
               (let seen_keys' = (if truthy (doi meta)
                                  then insert (or_str (doi meta) []) seen_keys else seen_keys)
                in io_bind (enrich_oa cfg net meta)
                     (\<lambda>meta'. io_return (results @ [doi_result meta'], seen_keys')))))"

definition openalex_step :: "config \<Rightarrow> providers \<Rightarrow> openalex_item \<Rightarrow> search_state \<Rightarrow> search_state io" where
  "openalex_step cfg net item st =
     (case st of (results, seen_keys) \<Rightarrow>
        (let meta = openalex_to_metadata item;
             key = or_str (doi meta) (title meta)
         in if key \<in> seen_keys then io_return (results, seen_keys)
            else
              io_bind (if truthy (doi meta) \<and> \<not> truthy (oa_url meta)
                       then enrich_oa cfg net meta else io_return meta)
                (\<lambda>meta'. io_return (results @ [doi_result meta'], insert key seen_keys))))"

definition per_source :: "int \<Rightarrow> int" where
  "per_source max_results = max (max_results div 3) 5"

text \<open>The three loops: \<open>results\<close> and \<open>seen_keys\<close> as they are before the final slice.\<close>

definition search_merge :: "config \<Rightarrow> providers \<Rightarrow> string \<Rightarrow> int \<Rightarrow> search_state io" where
  "search_merge cfg net query max_results =
     io_bind (arxiv_search cfg net query (per_source max_results)) (\<lambda>metas.
     io_bind (for_each arxiv_step metas ([], {})) (\<lambda>st1.
     io_bind (crossref_search cfg net query (per_source max_results)) (\<lambda>items.
     io_bind (for_each (crossref_step cfg net) items st1) (\<lambda>st2.
     io_bind (openalex_search cfg net query (per_source max_results)) (\<lambda>works.
     for_each (openalex_step cfg net) works st2)))))"

text \<open>\<open>xs[:n]\<close>: a negative \<open>n\<close> counts from the end.\<close>

definition slice_to :: "'a list \<Rightarrow> int \<Rightarrow> 'a list" where
  "slice_to xs n = (if 0 \<le> n then take (nat n) xs else take (nat (int (length xs) + n)) xs)"

definition search_ad_hoc :: "config \<Rightarrow> providers \<Rightarrow> string \<Rightarrow> int \<Rightarrow> ProcessingResult list io" where
  "search_ad_hoc cfg net query max_results =
     io_bind (search_merge cfg net query max_results)
       (\<lambda>st. io_return (slice_to (fst st) max_results))"

section \<open>Paper lists and entries (framework.py)\<close>

text \<open>\<open>list(dict.fromkeys(xs))\<close>: the first occurrence of each element, in order.\<close>

fun dict_fromkeys :: "'a list \<Rightarrow> 'a list" where
  "dict_fromkeys [] = []"
| "dict_fromkeys (x # xs) = x # dict_fromkeys (filter (\<lambda>y. y \<noteq> x) xs)"

definition parse_entries :: "string \<Rightarrow> string list" where
  "parse_entries text =
     map (\<lambda>d. rstrip d ''.,;)'') (findall doi_at text) @
     filter (\<lambda>u. \<not> contains u ''doi.org'') (map (\<lambda>u. rstrip u ''.,;)'') (findall url_at text))"

text \<open>\<open>_parse_paper_list\<close>; the first argument gives the text of each file that exists.\<close>

definition parse_paper_list :: "(string \<Rightarrow> string option) \<Rightarrow> string \<Rightarrow> string list" where
  "parse_paper_list fs file_path =
     (case fs file_path of
        None \<Rightarrow> []
      | Some text \<Rightarrow> dict_fromkeys (parse_entries text))"

definition process_doi :: "config \<Rightarrow> providers \<Rightarrow> string \<Rightarrow> real \<Rightarrow> ProcessingResult io" where
  "process_doi cfg net d start =
     io_bind (crossref_lookup_doi cfg net d) (\<lambda>item.
       case item of
         None \<Rightarrow>
           io_bind (time_time net) (\<lambda>now. io_return
             \<lparr>url = ''https://doi.org/'' @ d, state = FAILED, metadata = None,
              error_message = Some ''DOI not found in Crossref'',
              processing_time = now - start\<rparr>)
       | Some it \<Rightarrow>
           (case crossref_to_metadata it of
              None \<Rightarrow> io_raise none_has_no_doi
            | Some meta \<Rightarrow>
                io_bind (enrich_oa cfg net meta) (\<lambda>meta'.
                io_bind (time_time net) (\<lambda>now. io_return
                  \<lparr>url = ''https://doi.org/'' @ d,
                   state = (if truthy (oa_url meta') then COMPLETED else METADATA_EXTRACTED),
                   metadata = Some meta', error_message = None,
                   processing_time = now - start\<rparr>))))"

definition process_url :: "config \<Rightarrow> providers \<Rightarrow> string \<Rightarrow> real \<Rightarrow> ProcessingResult io" where
  "process_url cfg net u start =
     (case re_search (arxiv_abs_at not_space) u of
        Some aid \<Rightarrow>
          io_bind (time_time net) (\<lambda>now. io_return
            \<lparr>url = u, state = COMPLETED,
             metadata = Some ((PaperMetadata_init (''arXiv:'' @ aid))
               \<lparr>arxiv_id := Some aid, oa_status := Some GREEN,
                oa_url := Some (replace u ''/abs/'' ''/pdf/'')\<rparr>),
             error_message = None, processing_time = now - start\<rparr>)
      | None \<Rightarrow>
          (case re_search doi_at u of
             Some m \<Rightarrow> process_doi cfg net (rstrip m ''.,;)'') start
           | None \<Rightarrow>
               io_bind (time_time net) (\<lambda>now. io_return
                 \<lparr>url = u, state = METADATA_EXTRACTED,
                  metadata = Some (PaperMetadata_init u),
                  error_message = None, processing_time = now - start\<rparr>)))"

text \<open>The body of the \<open>try\<close> of \<open>_process_entry\<close>, and \<open>_process_entry\<close> itself.\<close>

definition process_entry_body :: "config \<Rightarrow> providers \<Rightarrow> string \<Rightarrow> real \<Rightarrow> ProcessingResult io" where
  "process_entry_body cfg net entry start =
     (if startswith entry ''http'' then process_url cfg net entry start
      else process_doi cfg net entry start)"

definition process_entry :: "config \<Rightarrow> providers \<Rightarrow> string \<Rightarrow> ProcessingResult io" where
  "process_entry cfg net entry =
     io_bind (time_time net) (\<lambda>start.
       io_catch (process_entry_body cfg net entry start)
         (\<lambda>e. io_bind (time_time net) (\<lambda>now. io_return
            \<lparr>url = entry, state = FAILED, metadata = None,
             error_message = Some (str_exn e), processing_time = now - start\<rparr>)))"

definition process_paper_list ::
  "config \<Rightarrow> providers \<Rightarrow> (string \<Rightarrow> string option) \<Rightarrow> string \<Rightarrow> ProcessingResult list io" where
  "process_paper_list cfg net fs file_path =
     for_each (\<lambda>entry results.
         io_bind (process_entry cfg net entry) (\<lambda>r. io_return (results @ [r])))
       (parse_paper_list fs file_path) []"

section \<open>PDF download (framework.py)\<close>

definition safe_name :: "string \<Rightarrow> string" where
  "safe_name t =
     strip (take 80 (filter (\<lambda>c. is_word c \<or> is_space c \<or> c = CHR ''-'')
                       (if t = [] then ''paper'' else t)))"

text \<open>
  Opening the file creates it; the chunks that arrive are written; when the body breaks
  off, the exception leaves the \<open>with\<close> block after the file has been closed.
\<close>

definition write_chunks :: "string \<Rightarrow> response \<Rightarrow> unit io" where
  "write_chunks filename resp =
     (\<lambda>w. (case stream_error resp of None \<Rightarrow> Inr () | Some e \<Rightarrow> Inl e,
           w\<lparr>files := (files w)(filename \<mapsto> concat (chunks resp))\<rparr>))"

definition is_pdf_response :: "response \<Rightarrow> string \<Rightarrow> bool" where
  "is_pdf_response resp u =
     (let content_type = (case content_type_header resp of None \<Rightarrow> [] | Some c \<Rightarrow> c)
      in status_code resp = 200 \<and>
         (contains content_type ''pdf'' \<or> endswith u ''.pdf'' \<or> contains u ''arxiv.org/pdf''))"

text \<open>The loop body of \<open>download_pdfs\<close>; the loop state is \<open>count\<close>.\<close>

definition download_step :: "providers \<Rightarrow> ProcessingResult \<Rightarrow> nat \<Rightarrow> nat io" where
  "download_step net r count =
     (case metadata r of
        None \<Rightarrow> io_return count
      | Some m \<Rightarrow>
          if \<not> truthy (oa_url m) then io_return count
          else
            (let u = or_str (oa_url m) [];
                 filename = safe_name (title m) @ ''.pdf''
             in (\<lambda>w. if files w filename \<noteq> None then io_return (count + 1) w
                      else io_catch
                             (io_bind (session_get (Artifact_fetch u) (artifact net u))
                                (\<lambda>resp. if is_pdf_response resp u
                                         then io_bind (write_chunks filename resp)
                                                (\<lambda>_. io_return (count + 1))
                                         else io_return count))
                             (\<lambda>e. io_return count) w)))"

definition download_pdfs :: "providers \<Rightarrow> ProcessingResult list \<Rightarrow> nat io" where
  "download_pdfs net results = for_each (download_step net) results 0"

section \<open>Report (framework.py)\<close>

text \<open>\<open>d[k] = d.get(k, 0) + 1\<close> on a dictionary, kept as its items in insertion order.\<close>

fun bump :: "string \<Rightarrow> (string \<times> nat) list \<Rightarrow> (string \<times> nat) list" where
  "bump k [] = [(k, 1)]"
| "bump k ((k', c) # rest) = (if k = k' then (k', c + 1) # rest else (k', c) # bump k rest)"

definition oa_counts :: "ProcessingResult list \<Rightarrow> (string \<times> nat) list" where
  "oa_counts results =
     foldl (\<lambda>d r. case metadata r of
                    None \<Rightarrow> d
                  | Some m \<Rightarrow> (case oa_status m of
                                None \<Rightarrow> d
                              | Some c \<Rightarrow> bump (OAColor_value c) d))
       [] results"

definition journal_counts :: "ProcessingResult list \<Rightarrow> (string \<times> nat) list" where
  "journal_counts results =
     foldl (\<lambda>d r. case metadata r of
                    None \<Rightarrow> d
                  | Some m \<Rightarrow> if truthy (journal m) then bump (or_str (journal m) []) d else d)
       [] results"

text \<open>
  \<open>a / b\<close> on two counts: \<open>ZeroDivisionError\<close> when \<open>b\<close> is zero. The quotient is the
  real one; the rounding of floating-point arithmetic is not modelled.
\<close>

definition truediv :: "nat \<Rightarrow> nat \<Rightarrow> exn + real" where
  "truediv a b =
     (if b = 0 then Inl (ZeroDivisionError ''division by zero'') else Inr (real a / real b))"

definition join_lines :: "string list \<Rightarrow> string" where
  "join_lines ls = (case ls of [] \<Rightarrow> [] | l # rest \<Rightarrow> l @ concat (map (\<lambda>x. CHR 0x0A # x) rest))"

text \<open>
  The list \<open>lines\<close> of \<open>generate_report\<close> for a non-empty result list; \<open>fmt\<close> is the
  rendering \<open>:.0f\<close> of a number.
\<close>

definition report_lines :: "(real \<Rightarrow> string) \<Rightarrow> ProcessingResult list \<Rightarrow> exn + string list" where
  "report_lines fmt results =
     (let total = length results;
          completed = length (filter (\<lambda>r. state r = COMPLETED) results);
          failed = length (filter (\<lambda>r. state r = FAILED) results)
      in case truediv completed total of
           Inl e \<Rightarrow> Inl e
         | Inr q \<Rightarrow> Inr
            ([''Academic Paper Search Report'',
              replicate 40 CHR ''='',
              ''Total processed: '' @ str_nat total,
              ''Completed:       '' @ str_nat completed,
              ''Failed:          '' @ str_nat failed,
              ''Success rate:    '' @ fmt (q * 100) @ ''%'',
              [],
              ''Open Access Breakdown:'']
             @ map (\<lambda>(color, n). ''  '' @ color @ '': '' @ str_nat n)
                 (sort_key fst (oa_counts results))
             @ (if journal_counts results = [] then []
                else [[], ''Top Journals:'']
                     @ map (\<lambda>(j, c). ''  '' @ j @ '': '' @ str_nat c)
                         (take 10 (sort_key (\<lambda>(j, c). - int c) (journal_counts results))))))"

definition generate_report :: "(real \<Rightarrow> string) \<Rightarrow> ProcessingResult list \<Rightarrow> exn + string" where
  "generate_report fmt results =
     (if length results = 0 then Inr ''No results to report.''
      else (case report_lines fmt results of Inl e \<Rightarrow> Inl e | Inr ls \<Rightarrow> Inr (join_lines ls)))"

section \<open>Example inputs\<close>

definition empty_world :: world where
  "empty_world = \<lparr>requests = [], ticks = 0, last_request_time = 0, sleeps = [],
                   files = Map.empty\<rparr>"

definition not_found :: response where
  "not_found = \<lparr>status_code = 404, content_type_header = Some ''text/html'',
                 chunks = [''gone''], stream_error = None\<rparr>"

text \<open>Providers that find nothing, and a full-text host that answers 404.\<close>

definition silent_net :: providers where
  "silent_net =
     \<lparr>arxiv_feed = (\<lambda>q n. Inr []), crossref_works = (\<lambda>q n. Inr []),
      crossref_work = (\<lambda>d. Inr None), unpaywall_record = (\<lambda>d e. Inr None),
      openalex_works = (\<lambda>q n. Inr []), openalex_work = (\<lambda>d. Inr None),
      artifact = (\<lambda>u. Inr not_found), clock = real\<rparr>"

definition no_email :: config where
  "no_email = \<lparr>contact_email = [], rate_limit_per_second = 1\<rparr>"

definition open_paper :: ProcessingResult where
  "open_paper =
     \<lparr>url = ''https://doi.org/10.1000/a'', state = COMPLETED,
      metadata = Some ((PaperMetadata_init ''A paper'')
                  \<lparr>doi := Some ''10.1000/a'', oa_status := Some GOLD,
                   oa_url := Some ''https://example.org/a.pdf''\<rparr>),
      error_message = None, processing_time = 0\<rparr>"

definition whole_percent :: "real \<Rightarrow> string" where
  "whole_percent x = str_nat (nat \<lfloor>x\<rfloor>)"

definition open_work :: openalex_item where
  "open_work =
     \<lparr>oi_title = Some ''A paper'', oi_author_names = [], oi_publication_year = Some 2020,
      oi_journal = None, oi_doi = Some ''https://doi.org/10.1000/a'',
      oi_open_access = Some \<lparr>is_oa = True, oa_url_field = Some ''https://example.org/a.pdf''\<rparr>\<rparr>"

section \<open>Properties stated about the records\<close>

text \<open>
  The invariant of the data model on the OA fields: a status that is present is a member
  of the enumeration, and the status closed goes with no OA location.
\<close>

definition oa_invariant :: "PaperMetadata \<Rightarrow> bool" where
  "oa_invariant m =
     ((case oa_status m of
         None \<Rightarrow> True
       | Some c \<Rightarrow> c \<in> {GOLD, GREEN, HYBRID, BRONZE, CLOSED, UNKNOWN})
      \<and> (oa_status m = Some CLOSED \<longrightarrow> oa_url m = None))"

text \<open>
  The records the adapters produce, and what \<open>_enrich_oa\<close> makes of such a record.
\<close>

inductive produced :: "config \<Rightarrow> providers \<Rightarrow> PaperMetadata \<Rightarrow> bool" for cfg net where
  by_crossref: "crossref_to_metadata item = Some m \<Longrightarrow> produced cfg net m"
| by_openalex: "produced cfg net (openalex_to_metadata work)"
| by_arxiv: "arxiv_entry_to_metadata entry = Inr m \<Longrightarrow> produced cfg net m"
| by_core: "produced cfg net (core_item_to_metadata citem)"
| by_enrich_oa: "produced cfg net m \<Longrightarrow> enrich_oa cfg net m w = (Inr m', w') \<Longrightarrow> produced cfg net m'"

section \<open>More example inputs\<close>

definition with_email :: config where
  "with_email = \<lparr>contact_email = ''me@example.org'', rate_limit_per_second = 1\<rparr>"

definition plain_item :: crossref_item where
  "plain_item =
     \<lparr>ci_title = [''A paper''], ci_DOI = Some ''10.1000/a'', ci_author = [],
      ci_published_print = None, ci_published_online = None, ci_created = None,
      ci_container_title = [], ci_abstract = None\<rparr>"

definition figure_item :: crossref_item where
  "figure_item = plain_item\<lparr>ci_title := [''Figure 3''], ci_DOI := Some ''10.7717/peerj.1/fig-3''\<rparr>"

definition closed_net :: providers where
  "closed_net =
     silent_net\<lparr>unpaywall_record := (\<lambda>d e. Inr (Some
        \<lparr>up_is_oa = False, up_oa_status = Some ''closed'', up_best_oa_location = None\<rparr>))\<rparr>"

definition figure_net :: providers where
  "figure_net =
     silent_net\<lparr>crossref_works := (\<lambda>q n. Inr [figure_item]),
                 crossref_work := (\<lambda>d. Inr (Some figure_item))\<rparr>"

definition closed_record :: PaperMetadata where
  "closed_record =
     (PaperMetadata_init ''A paper'')\<lparr>doi := Some ''10.1000/a'', oa_status := Some CLOSED\<rparr>"

text \<open>A paper list with a DOI, twice, and an arXiv URL.\<close>

definition sample_text :: string where
  "sample_text = ''Some papers: 10.1016/j.oregeorev.2018.12.018, '' @ CHR 0x0A #
                 ''https://arxiv.org/abs/1901.01234 and again 10.1016/j.oregeorev.2018.12.018.''"

section \<open>Properties stated about the search results\<close>


text \<open>
  The dedup key as the specification derives it: the DOI if present, else the arXiv ID if
  present, else the title of the record.
\<close>

definition spec_dedup_key :: "PaperMetadata \<Rightarrow> string" where
  "spec_dedup_key m = or_str (doi m) (or_str (arxiv_id m) (title m))"

text \<open>
  The merge as the specification has it, over the candidates in the order in which they
  are met, each with its key and its record: of the candidates that share a key only the
  first is kept, and its key is registered; a candidate without a key is kept.
\<close>

fun spec_keep_first :: "(string option \<times> 'a) list \<Rightarrow> string set \<Rightarrow> 'a list" where
  "spec_keep_first [] seen = []"
| "spec_keep_first ((None, r) # cs) seen = r # spec_keep_first cs seen"
| "spec_keep_first ((Some k, r) # cs) seen =
     (if k \<in> seen then spec_keep_first cs seen else r # spec_keep_first cs (insert k seen))"

definition keys_of :: "(string option \<times> 'a) list \<Rightarrow> string set" where
  "keys_of cs = set (List.map_filter fst cs)"

text \<open>
  The record \<open>_enrich_oa\<close> returns for a record, or the exception it raises. The
  providers answer by the arguments of a request alone, so this is the same in whichever
  world the call starts, and it is read off a call in the empty world.
\<close>

definition enrich_oa_value :: "config \<Rightarrow> providers \<Rightarrow> PaperMetadata \<Rightarrow> exn + PaperMetadata" where
  "enrich_oa_value cfg net m = fst (enrich_oa cfg net m empty_world)"

text \<open>
  What each loop of \<open>search_ad_hoc\<close> has to offer for one item: the result the loop body
  builds when it keeps the item (or the exception it raises on the way), and the key
  under which the item is looked up and registered. The key of an arXiv record and of an
  OpenAlex record is the key of the specification; a Crossref record has that key when it
  has a DOI, and no key otherwise.
\<close>

type_synonym candidate = "string option \<times> (exn + ProcessingResult)"

definition arxiv_candidate :: "PaperMetadata \<Rightarrow> candidate" where
  "arxiv_candidate m = (Some (spec_dedup_key m), Inr (arxiv_result m))"

definition crossref_record :: "config \<Rightarrow> providers \<Rightarrow> crossref_item \<Rightarrow> exn + ProcessingResult" where
  "crossref_record cfg net item =
     (case crossref_to_metadata item of
        None \<Rightarrow> Inl none_has_no_doi
      | Some m \<Rightarrow> sum_bind (enrich_oa_value cfg net m) (\<lambda>m'. Inr (doi_result m')))"

definition crossref_candidate :: "config \<Rightarrow> providers \<Rightarrow> crossref_item \<Rightarrow> candidate" where
  "crossref_candidate cfg net item =
     ((case crossref_to_metadata item of
         None \<Rightarrow> None
       | Some m \<Rightarrow> if truthy (doi m) then Some (spec_dedup_key m) else None),
      crossref_record cfg net item)"

definition openalex_record :: "config \<Rightarrow> providers \<Rightarrow> openalex_item \<Rightarrow> exn + ProcessingResult" where
  "openalex_record cfg net work =
     (let m = openalex_to_metadata work
      in if truthy (doi m) \<and> \<not> truthy (oa_url m)
         then sum_bind (enrich_oa_value cfg net m) (\<lambda>m'. Inr (doi_result m'))
         else Inr (doi_result m))"

definition openalex_candidate :: "config \<Rightarrow> providers \<Rightarrow> openalex_item \<Rightarrow> candidate" where
  "openalex_candidate cfg net work =
     (Some (spec_dedup_key (openalex_to_metadata work)), openalex_record cfg net work)"

text \<open>
  The candidates of one call, in the order arXiv, Crossref, OpenAlex and, within a
  provider, in the order of its answer.
\<close>

definition candidates :: "config \<Rightarrow> providers \<Rightarrow> string \<Rightarrow> int \<Rightarrow> candidate list" where
  "candidates cfg net query max_results =
     (let n = per_source max_results
      in (case sum_bind (arxiv_feed net query n) arxiv_results of
            Inl e \<Rightarrow> [] | Inr metas \<Rightarrow> map arxiv_candidate metas)
         @ (case crossref_works net query n of
              Inl e \<Rightarrow> [] | Inr items \<Rightarrow> map (crossref_candidate cfg net) items)
         @ (case openalex_works net query (min n 200) of
              Inl e \<Rightarrow> [] | Inr works \<Rightarrow> map (openalex_candidate cfg net) works))"

text \<open>
  A normalization of titles, as the dedup key of the specification names one: the white
  space around the title removed and the letters A to Z in lower case. The code has no
  such step.
\<close>

definition ascii_lower :: "char \<Rightarrow> char" where
  "ascii_lower c = (let n = (of_char c :: nat) in if 65 \<le> n \<and> n \<le> 90 then char_of (n + 32) else c)"

definition spec_normalized_title :: "string \<Rightarrow> string" where
  "spec_normalized_title t = map ascii_lower (strip t)"

section \<open>Example inputs for the search\<close>

text \<open>
  One paper with the DOI 10.1000/a as three providers have it: the arXiv entry of its
  preprint, which names the DOI, the Crossref work and the OpenAlex work.
\<close>

definition preprint :: arxiv_entry where
  "preprint =
     \<lparr>ae_title = Some (Element (Some ''A paper'')),
      ae_author_names = [Some (Element (Some ''A. Author''))],
      ae_summary = Some (Element (Some ''Summary.'')),
      ae_id = Some (Element (Some ''http://arxiv.org/abs/1901.01234v1'')),
      ae_published = Some (Element (Some ''2019-01-05T00:00:00Z'')),
      ae_doi = Some (Element (Some ''10.1000/a''))\<rparr>"

definition preprint_record :: PaperMetadata where
  "preprint_record =
     \<lparr>title = ''A paper'', authors = [''A. Author''], doi = None,
      arxiv_id = Some ''1901.01234v1'', publication_year = Some 2019, journal = None,
      abstract = Some ''Summary.'', keywords' = [], oa_status = Some GREEN,
      oa_url = Some ''http://arxiv.org/pdf/1901.01234v1'', license = None\<rparr>"

definition plain_record :: PaperMetadata where
  "plain_record = (PaperMetadata_init ''A paper'')\<lparr>doi := Some ''10.1000/a''\<rparr>"

definition dup_net :: providers where
  "dup_net =
     silent_net\<lparr>arxiv_feed := (\<lambda>q n. Inr [preprint]),
                 crossref_works := (\<lambda>q n. Inr [plain_item]),
                 openalex_works := (\<lambda>q n. Inr [open_work])\<rparr>"





text \<open>A Crossref item without a DOI, and the three providers with it.\<close>

definition untitled_item :: crossref_item where
  "untitled_item = plain_item\<lparr>ci_title := [''Same title''], ci_DOI := None\<rparr>"

definition mixed_net :: providers where
  "mixed_net = dup_net\<lparr>crossref_works := (\<lambda>q n. Inr [plain_item, untitled_item])\<rparr>"

definition twin_net :: providers where
  "twin_net = silent_net\<lparr>crossref_works := (\<lambda>q n. Inr [untitled_item, untitled_item])\<rparr>"

text \<open>Two OpenAlex works without a DOI whose titles differ in the case of one letter.\<close>

definition upper_work :: openalex_item where
  "upper_work =
     \<lparr>oi_title = Some ''Deep Learning'', oi_author_names = [], oi_publication_year = Some 2015,
      oi_journal = None, oi_doi = None, oi_open_access = None\<rparr>"

definition lower_work :: openalex_item where
  "lower_work = upper_work\<lparr>oi_title := Some ''Deep learning''\<rparr>"

definition case_net :: providers where
  "case_net = silent_net\<lparr>openalex_works := (\<lambda>q n. Inr [upper_work, lower_work])\<rparr>"

section \<open>Effects: general facts\<close>

lemma for_each_never_raises:
  assumes "\<And>x s w. \<exists>s' w'. body x s w = (Inr s', w')"
  shows "\<exists>s' w'. for_each body xs s w = (Inr s', w')"
proof (induction xs arbitrary: s w)
  case Nil
  show ?case by (simp add: io_return_def)
next
  case (Cons x xs)
  obtain s1 w1 where "body x s w = (Inr s1, w1)" using assms by blast
  moreover obtain s2 w2 where "for_each body xs s1 w1 = (Inr s2, w2)" using Cons.IH by blast
  ultimately show ?case by (simp add: io_bind_def)
qed

text \<open>
  A call through the gateway takes two readings of the clock and logs its request; the
  answer is the provider's, and the files are left alone.
\<close>

lemma throttle_effect:
  obtains w' where "throttle cfg net w = (Inr (), w')" and "requests w' = requests w"
    and "ticks w' = ticks w + 2" and "files w' = files w"
  by (cases "clock net (ticks w) - last_request_time w < rate_delay cfg")
     (simp_all add: throttle_def io_bind_def time_time_def time_sleep_def io_return_def)

lemma gateway_get_effect:
  obtains w' where "gateway_get cfg net req answer w = (answer, w')"
    and "requests w' = requests w @ [req]" and "ticks w' = ticks w + 2" and "files w' = files w"
proof -
  obtain w1 where "throttle cfg net w = (Inr (), w1)" "requests w1 = requests w"
    "ticks w1 = ticks w + 2" "files w1 = files w"
    by (rule throttle_effect)
  then show ?thesis
    by (intro that[of "w1\<lparr>requests := requests w1 @ [req]\<rparr>"])
       (simp_all add: gateway_get_def io_bind_def session_get_def)
qed

section \<open>The report\<close>

text \<open>
  C4. \<open>generate_report\<close> never divides by zero: it returns a text for every result
  list and never the exception \<open>ZeroDivisionError\<close>. For the empty list the text is
  the message "No results to report."; for a non-empty list the line of the success rate
  renders the number of completed results over the total, times 100.
\<close>

theorem generate_report_guards_division:
  "generate_report fmt [] = Inr ''No results to report.''
   \<and> (\<exists>s. generate_report fmt R = Inr s)
   \<and> (R \<noteq> [] \<longrightarrow>
        (\<exists>ls. report_lines fmt R = Inr ls \<and> generate_report fmt R = Inr (join_lines ls) \<and>
              ls ! 5 = ''Success rate:    '' @
                       fmt (real (length (filter (\<lambda>r. state r = COMPLETED) R)) /
                            real (length R) * 100) @ ''%''))"
proof (intro conjI impI)
  show "generate_report fmt [] = Inr ''No results to report.''"
    by (simp add: generate_report_def)
  show "\<exists>s. generate_report fmt R = Inr s"
    by (cases R) (simp_all add: generate_report_def report_lines_def truediv_def Let_def)
next
  assume "R \<noteq> []"
  then show "\<exists>ls. report_lines fmt R = Inr ls \<and> generate_report fmt R = Inr (join_lines ls) \<and>
              ls ! 5 = ''Success rate:    '' @
                       fmt (real (length (filter (\<lambda>r. state r = COMPLETED) R)) /
                            real (length R) * 100) @ ''%''"
    by (simp add: generate_report_def report_lines_def truediv_def Let_def)
qed

theorem generate_report_guards_division_witness:
  "[open_paper, open_paper\<lparr>state := FAILED\<rparr>] \<noteq> []
   \<and> (\<exists>ls. report_lines whole_percent [open_paper, open_paper\<lparr>state := FAILED\<rparr>] = Inr ls \<and>
           ls ! 5 = ''Success rate:    '' @ whole_percent (1 / 2 * 100) @ ''%'')"
  using generate_report_guards_division
          [of whole_percent "[open_paper, open_paper\<lparr>state := FAILED\<rparr>]"]
  by (auto simp add: open_paper_def)

section \<open>The download loop\<close>

lemma download_step_returns: "\<exists>c' w'. download_step net r c w = (Inr c', w')"
proof (cases "metadata r")
  case None
  then show ?thesis by (simp add: download_step_def io_return_def)
next
  case (Some m)
  show ?thesis
  proof (cases "artifact net (or_str (oa_url m) [])")
    case (Inl e)
    with Some show ?thesis
      by (simp add: download_step_def io_return_def io_catch_def io_bind_def session_get_def
          Let_def)
  next
    case (Inr resp)
    with Some show ?thesis
      by (cases "stream_error resp")
         (simp_all add: download_step_def io_return_def io_catch_def io_bind_def
            session_get_def write_chunks_def Let_def)
  qed
qed

text \<open>
  C9. In \<open>download_pdfs\<close>, when the fetch of a result's OA location is answered with a
  status other than 200 (404, say), the loop body leaves the files and the count as they
  were, the only effect being the request itself; the loop goes on with the remaining
  results; and \<open>download_pdfs\<close> as a whole returns a count, never an exception.
\<close>

theorem download_pdfs_rejects_failed_fetch:
  assumes "metadata r = Some m" and "oa_url m = Some u" and "u \<noteq> []"
    and "files w (safe_name (title m) @ ''.pdf'') = None"
    and "artifact net u = Inr resp" and "status_code resp \<noteq> 200"
  shows "download_step net r c w = (Inr c, w\<lparr>requests := requests w @ [Artifact_fetch u]\<rparr>)
       \<and> for_each (download_step net) (r # rest) c w
           = for_each (download_step net) rest c (w\<lparr>requests := requests w @ [Artifact_fetch u]\<rparr>)
       \<and> (\<exists>n w'. download_pdfs net (before @ r # rest) w0 = (Inr n, w'))"
proof -
  have step: "download_step net r c w = (Inr c, w\<lparr>requests := requests w @ [Artifact_fetch u]\<rparr>)"
    using assms
    by (simp add: download_step_def io_return_def io_catch_def io_bind_def session_get_def
        is_pdf_response_def Let_def)
  have "\<exists>n w'. for_each (download_step net) (before @ r # rest) 0 w0 = (Inr n, w')"
    by (rule for_each_never_raises) (rule download_step_returns)
  with step show ?thesis by (simp add: io_bind_def download_pdfs_def)
qed

theorem download_pdfs_rejects_failed_fetch_witness:
  "metadata open_paper = Some (the (metadata open_paper))
   \<and> oa_url (the (metadata open_paper)) = Some ''https://example.org/a.pdf''
   \<and> files empty_world (safe_name (title (the (metadata open_paper))) @ ''.pdf'') = None
   \<and> artifact silent_net ''https://example.org/a.pdf'' = Inr not_found
   \<and> status_code not_found \<noteq> 200
   \<and> download_pdfs silent_net [open_paper] empty_world
       = (Inr 0, empty_world\<lparr>requests := [Artifact_fetch ''https://example.org/a.pdf'']\<rparr>)"
  using download_pdfs_rejects_failed_fetch
          [of open_paper "the (metadata open_paper)" "''https://example.org/a.pdf''" empty_world
              silent_net not_found 0 "[]" "[]" empty_world]
  by (simp add: open_paper_def empty_world_def silent_net_def not_found_def download_pdfs_def
      io_return_def)

text \<open>
  C10. In \<open>download_pdfs\<close>, for a result whose metadata has an OA location and whose
  file name, derived from the title, already exists in the output directory, the loop
  body issues no request and writes no file (the world is unchanged), and the count is
  incremented all the same.
\<close>

theorem download_pdfs_counts_existing_file:
  assumes "metadata r = Some m" and "oa_url m = Some u" and "u \<noteq> []"
    and "files w (safe_name (title m) @ ''.pdf'') = Some content"
  shows "download_step net r c w = (Inr (c + 1), w)
       \<and> for_each (download_step net) (r # rest) c w
           = for_each (download_step net) rest (c + 1) w"
proof -
  have step: "download_step net r c w = (Inr (c + 1), w)"
    using assms by (simp add: download_step_def io_return_def Let_def)
  then show ?thesis by (simp add: io_bind_def)
qed

theorem download_pdfs_counts_existing_file_witness:
  "metadata open_paper = Some (the (metadata open_paper))
   \<and> oa_url (the (metadata open_paper)) = Some ''https://example.org/a.pdf''
   \<and> files (empty_world\<lparr>files := [''A paper.pdf'' \<mapsto> ''%PDF'']\<rparr>)
       (safe_name (title (the (metadata open_paper))) @ ''.pdf'') = Some ''%PDF''
   \<and> download_pdfs silent_net [open_paper] (empty_world\<lparr>files := [''A paper.pdf'' \<mapsto> ''%PDF'']\<rparr>)
       = (Inr 1, empty_world\<lparr>files := [''A paper.pdf'' \<mapsto> ''%PDF'']\<rparr>)"
  using download_pdfs_counts_existing_file
          [of open_paper "the (metadata open_paper)" "''https://example.org/a.pdf''"
              "empty_world\<lparr>files := [''A paper.pdf'' \<mapsto> ''%PDF'']\<rparr>" "''%PDF''" silent_net 0 "[]"]
  by (simp add: open_paper_def empty_world_def download_pdfs_def io_return_def
      PaperMetadata_init_def safe_name_def strip_def is_word_def is_alpha_def is_numeric_def
      is_space_def)

section \<open>OA enrichment\<close>

lemma openalex_fallback_requests:
  "requests (snd (openalex_fallback cfg net d meta w)) = requests w @ [OpenAlex_work d]"
proof -
  obtain w1 where g: "gateway_get cfg net (OpenAlex_work d) (openalex_work net d) w
                        = (openalex_work net d, w1)"
    and r: "requests w1 = requests w @ [OpenAlex_work d]"
    by (rule gateway_get_effect)
  show ?thesis
    using g r
    by (cases "openalex_work net d")
       (auto simp add: openalex_fallback_def openalex_lookup_doi_def io_bind_def io_return_def
          split: option.splits)
qed

text \<open>
  C2. \<open>_enrich_oa\<close> returns a record without a DOI unchanged, with no request. For a
  record with a DOI, when no contact email is configured, it does what the OpenAlex
  fallback does: the one request it issues is the OpenAlex lookup of that DOI, and no
  request goes to Unpaywall.
\<close>

theorem enrich_oa_without_contact_email:
  "(\<not> truthy (doi meta) \<longrightarrow> enrich_oa cfg net meta w = (Inr meta, w))
   \<and> (truthy (doi meta) \<and> contact_email cfg = [] \<longrightarrow>
        enrich_oa cfg net meta w = openalex_fallback cfg net (or_str (doi meta) []) meta w
        \<and> requests (snd (enrich_oa cfg net meta w))
            = requests w @ [OpenAlex_work (or_str (doi meta) [])])"
proof (intro conjI impI)
  assume "\<not> truthy (doi meta)"
  then show "enrich_oa cfg net meta w = (Inr meta, w)"
    by (simp add: enrich_oa_def io_return_def)
next
  assume h: "truthy (doi meta) \<and> contact_email cfg = []"
  then show eq: "enrich_oa cfg net meta w
                   = openalex_fallback cfg net (or_str (doi meta) []) meta w"
    by (simp add: enrich_oa_def Let_def)
  then show "requests (snd (enrich_oa cfg net meta w))
                  = requests w @ [OpenAlex_work (or_str (doi meta) [])]"
    by (simp add: openalex_fallback_requests)
qed

theorem enrich_oa_without_contact_email_witness:
  "\<not> truthy (doi (PaperMetadata_init ''No DOI''))
   \<and> enrich_oa no_email silent_net (PaperMetadata_init ''No DOI'') empty_world
       = (Inr (PaperMetadata_init ''No DOI''), empty_world)
   \<and> truthy (doi ((PaperMetadata_init ''A paper'')\<lparr>doi := Some ''10.1000/a''\<rparr>))
   \<and> contact_email no_email = []
   \<and> requests (snd (enrich_oa no_email (silent_net\<lparr>openalex_work := (\<lambda>d. Inr (Some open_work))\<rparr>)
                      ((PaperMetadata_init ''A paper'')\<lparr>doi := Some ''10.1000/a''\<rparr>) empty_world))
       = [OpenAlex_work ''10.1000/a'']"
  using enrich_oa_without_contact_email
          [of "PaperMetadata_init ''No DOI''" no_email silent_net empty_world]
        enrich_oa_without_contact_email
          [of "(PaperMetadata_init ''A paper'')\<lparr>doi := Some ''10.1000/a''\<rparr>" no_email
              "silent_net\<lparr>openalex_work := (\<lambda>d. Inr (Some open_work))\<rparr>" empty_world]
  by (auto simp add: PaperMetadata_init_def no_email_def empty_world_def)

section \<open>The OA invariant\<close>

lemma plain_meta: "crossref_to_metadata plain_item
   = Some ((PaperMetadata_init ''A paper'')\<lparr>doi := Some ''10.1000/a''\<rparr>)"
  by (simp add: crossref_to_metadata_def plain_item_def PaperMetadata_init_def Let_def
      figure_at_def word_digits_at_def startswith_def crossref_year_def crossref_abstract_def)

lemma fig_none: "crossref_to_metadata figure_item = None"
  by (simp add: crossref_to_metadata_def figure_item_def plain_item_def Let_def
      figure_at_def word_digits_at_def startswith_def is_digit_def)

lemma status_map_not_closed: "status_map s \<noteq> CLOSED"
  by (simp add: status_map_def)

lemma unpaywall_oa_info_closed:
  "info_status (unpaywall_oa_info dat) = CLOSED \<Longrightarrow> info_url (unpaywall_oa_info dat) = None"
  by (auto simp add: unpaywall_oa_info_def Let_def status_map_not_closed split: if_splits option.splits)

text \<open>What the two parts of \<open>_enrich_oa\<close> return, by the answer of the provider.\<close>

lemma openalex_fallback_value:
  "fst (openalex_fallback cfg net d m w)
     = (case openalex_work net d of
          Inl e \<Rightarrow> Inl e
        | Inr None \<Rightarrow> Inr m
        | Inr (Some item) \<Rightarrow>
            (case oi_open_access item of
               None \<Rightarrow> Inr m
             | Some oa \<Rightarrow> if is_oa oa then Inr (m\<lparr>oa_status := Some GREEN, oa_url := oa_url_field oa\<rparr>)
                          else Inr m))"
proof -
  obtain w1 where "gateway_get cfg net (OpenAlex_work d) (openalex_work net d) w
                        = (openalex_work net d, w1)"
    by (rule gateway_get_effect)
  then show ?thesis
    by (cases "openalex_work net d")
       (auto simp add: openalex_fallback_def openalex_lookup_doi_def io_bind_def io_return_def
          split: option.splits)
qed

lemma enrich_oa_value_cases:
  "fst (enrich_oa cfg net m w)
     = (if \<not> truthy (doi m) then Inr m
        else if contact_email cfg = [] then fst (openalex_fallback cfg net (or_str (doi m) []) m w)
        else (case unpaywall_record net (or_str (doi m) []) (contact_email cfg) of
                Inl e \<Rightarrow> Inl e
              | Inr (Some dat) \<Rightarrow>
                  Inr (m\<lparr>oa_status := Some (info_status (unpaywall_oa_info dat)),
                         oa_url := info_url (unpaywall_oa_info dat),
                         license := info_license (unpaywall_oa_info dat)\<rparr>)
              | Inr None \<Rightarrow> fst (openalex_fallback cfg net (or_str (doi m) []) m w)))"
proof -
  let ?d = "or_str (doi m) []"
  let ?e = "contact_email cfg"
  obtain w1 where g: "gateway_get cfg net (Unpaywall_lookup ?d ?e) (unpaywall_record net ?d ?e) w
                        = (unpaywall_record net ?d ?e, w1)"
    by (rule gateway_get_effect)
  have fb: "fst (openalex_fallback cfg net ?d m w1) = fst (openalex_fallback cfg net ?d m w)"
    by (simp add: openalex_fallback_value)
  show ?thesis
    using g fb
    by (cases "unpaywall_record net ?d ?e")
       (auto simp add: enrich_oa_def Let_def unpaywall_check_def io_bind_def io_return_def
          split: option.splits)
qed

lemma enrich_oa_any_world: "fst (enrich_oa cfg net m w) = enrich_oa_value cfg net m"
  by (simp add: enrich_oa_value_def enrich_oa_value_cases openalex_fallback_value
      cong: sum.case_cong option.case_cong)

lemma openalex_fallback_invariant:
  assumes "oa_invariant m" and "fst (openalex_fallback cfg net d m w) = Inr m'"
  shows "oa_invariant m'"
  using assms
  by (auto simp add: openalex_fallback_value oa_invariant_def
       split: sum.splits option.splits if_splits)

lemma enrich_oa_invariant:
  assumes "oa_invariant m" and "enrich_oa cfg net m w = (Inr m', w')"
  shows "oa_invariant m'"
proof -
  from assms(2) have v: "fst (enrich_oa cfg net m w) = Inr m'" by simp
  show ?thesis
  proof (cases "truthy (doi m)")
    case False
    with v assms(1) show ?thesis by (simp add: enrich_oa_value_cases)
  next
    case True
    show ?thesis
    proof (cases "contact_email cfg = []")
      case True
      with \<open>truthy (doi m)\<close> v assms(1) show ?thesis
        by (auto simp add: enrich_oa_value_cases intro: openalex_fallback_invariant)
    next
      case False
      show ?thesis
      proof (cases "unpaywall_record net (or_str (doi m) []) (contact_email cfg)")
        case (Inl e)
        with False \<open>truthy (doi m)\<close> v show ?thesis by (simp add: enrich_oa_value_cases)
      next
        case (Inr data)
        show ?thesis
        proof (cases data)
          case None
          with Inr False \<open>truthy (doi m)\<close> v assms(1) show ?thesis
            by (auto simp add: enrich_oa_value_cases intro: openalex_fallback_invariant)
        next
          case (Some dat)
          with Inr False \<open>truthy (doi m)\<close> v
          have "m' = m\<lparr>oa_status := Some (info_status (unpaywall_oa_info dat)),
                       oa_url := info_url (unpaywall_oa_info dat),
                       license := info_license (unpaywall_oa_info dat)\<rparr>"
            by (simp add: enrich_oa_value_cases)
          then show ?thesis
            by (cases "info_status (unpaywall_oa_info dat)")
               (simp_all add: oa_invariant_def unpaywall_oa_info_closed)
        qed
      qed
    qed
  qed
qed

text \<open>
  C8. Every record produced by an adapter (Crossref, OpenAlex, arXiv, CORE), and every
  record \<open>_enrich_oa\<close> returns for such a record, satisfies the invariant: its OA status, if
  present, is one of gold, green, hybrid, bronze, closed, unknown, and the status closed
  goes with no OA location.
\<close>

theorem produced_records_keep_oa_invariant:
  "produced cfg net m \<Longrightarrow> oa_invariant m"
proof (induction rule: produced.induct)
  case (by_crossref item m)
  then show ?case
    by (auto simp add: crossref_to_metadata_def Let_def oa_invariant_def split: if_splits)
next
  case (by_openalex work)
  show ?case by (simp add: openalex_to_metadata_def oa_invariant_def split: option.splits)
next
  case (by_arxiv entry m)
  then show ?case
    by (auto simp add: arxiv_entry_to_metadata_def sum_bind_def oa_invariant_def
         split: sum.splits)
next
  case (by_core citem)
  show ?case by (simp add: core_item_to_metadata_def oa_invariant_def Let_def)
next
  case (by_enrich_oa m w m' w')
  then show ?case by (auto intro: enrich_oa_invariant)
qed

theorem produced_records_keep_oa_invariant_witness:
  "produced with_email closed_net closed_record
   \<and> oa_status closed_record = Some CLOSED \<and> oa_url closed_record = None"
proof -
  let ?m = "(PaperMetadata_init ''A paper'')\<lparr>doi := Some ''10.1000/a''\<rparr>"
  have "fst (enrich_oa with_email closed_net ?m empty_world) = Inr closed_record"
    by (simp add: enrich_oa_value_cases with_email_def closed_net_def silent_net_def
        unpaywall_oa_info_def closed_record_def PaperMetadata_init_def)
  then have e: "enrich_oa with_email closed_net ?m empty_world
                  = (Inr closed_record, snd (enrich_oa with_email closed_net ?m empty_world))"
    by (simp add: prod_eq_iff)
  have p: "produced with_email closed_net closed_record"
    by (rule by_enrich_oa[OF by_crossref[OF plain_meta] e])
  from produced_records_keep_oa_invariant[OF p] p show ?thesis
    by (simp add: oa_invariant_def closed_record_def PaperMetadata_init_def)
qed

section \<open>Entry processing\<close>

text \<open>
  The readings of the clock and the requests of a call go together: two readings for
  each request through the gateway.
\<close>

lemma openalex_fallback_count:
  "case openalex_fallback cfg net d m w of
     (x, w') \<Rightarrow> ticks w' = ticks w + 2 \<and> length (requests w') = length (requests w) + 1"
proof -
  obtain w1 where "gateway_get cfg net (OpenAlex_work d) (openalex_work net d) w
                        = (openalex_work net d, w1)"
    and "requests w1 = requests w @ [OpenAlex_work d]" and "ticks w1 = ticks w + 2"
    by (rule gateway_get_effect)
  then show ?thesis
    by (cases "openalex_work net d")
       (auto simp add: openalex_fallback_def openalex_lookup_doi_def io_bind_def io_return_def
          split: option.splits)
qed

lemma enrich_oa_count:
  "case enrich_oa cfg net m w of
     (x, w') \<Rightarrow> \<exists>k. ticks w' = ticks w + 2 * k \<and> length (requests w') = length (requests w) + k"
proof (cases "truthy (doi m) \<and> contact_email cfg \<noteq> []")
  case False
  show ?thesis
  proof (cases "truthy (doi m)")
    case True
    with False openalex_fallback_count[where cfg=cfg and net=net and d="or_str (doi m) []" and m=m and w=w] show ?thesis
      by (auto simp add: enrich_oa_def Let_def intro: exI[of _ 1])
  next
    case nd: False
    then show ?thesis by (auto simp add: enrich_oa_def io_return_def intro: exI[of _ 0])
  qed
next
  case True
  let ?d = "or_str (doi m) []"
  let ?e = "contact_email cfg"
  obtain w1 where g: "gateway_get cfg net (Unpaywall_lookup ?d ?e) (unpaywall_record net ?d ?e) w
                        = (unpaywall_record net ?d ?e, w1)"
    and c: "requests w1 = requests w @ [Unpaywall_lookup ?d ?e]" "ticks w1 = ticks w + 2"
    by (rule gateway_get_effect)
  show ?thesis
  proof (cases "unpaywall_record net ?d ?e")
    case (Inl e)
    with True g c show ?thesis
      by (auto simp add: enrich_oa_def Let_def unpaywall_check_def io_bind_def intro: exI[of _ 1])
  next
    case (Inr data)
    show ?thesis
    proof (cases data)
      case (Some dat)
      with Inr True g c show ?thesis
        by (auto simp add: enrich_oa_def Let_def unpaywall_check_def io_bind_def io_return_def
            intro: exI[of _ 1])
    next
      case None
      with Inr True g c openalex_fallback_count[where cfg=cfg and net=net and d="?d" and m=m and w=w1] show ?thesis
        by (auto simp add: enrich_oa_def Let_def unpaywall_check_def io_bind_def
            intro: exI[of _ 2])
    qed
  qed
qed

lemma process_doi_clock:
  "case process_doi cfg net d start w of
     (Inl e, w') \<Rightarrow>
       \<exists>k. ticks w' = ticks w + 2 * k \<and> length (requests w') = length (requests w) + k
   | (Inr r, w') \<Rightarrow>
       \<exists>k. ticks w' = ticks w + 2 * k + 1 \<and> length (requests w') = length (requests w) + k
           \<and> processing_time r = clock net (ticks w + 2 * k) - start"
proof -
  obtain w1 where g: "gateway_get cfg net (Crossref_work d) (crossref_work net d) w
                        = (crossref_work net d, w1)"
    and c: "requests w1 = requests w @ [Crossref_work d]" "ticks w1 = ticks w + 2"
    by (rule gateway_get_effect)
  show ?thesis
  proof (cases "crossref_work net d")
    case (Inl e)
    with g c show ?thesis
      by (auto simp add: process_doi_def crossref_lookup_doi_def io_bind_def intro: exI[of _ 1])
  next
    case (Inr item)
    show ?thesis
    proof (cases item)
      case None
      with Inr g c show ?thesis
        by (auto simp add: process_doi_def crossref_lookup_doi_def io_bind_def time_time_def
            io_return_def intro: exI[of _ 1])
    next
      case (Some it)
      show ?thesis
      proof (cases "crossref_to_metadata it")
        case None
        with Inr Some g c show ?thesis
          by (auto simp add: process_doi_def crossref_lookup_doi_def io_bind_def io_raise_def
              intro: exI[of _ 1])
      next
        case (Some meta)
        obtain x w2 where e: "enrich_oa cfg net meta w1 = (x, w2)"
          by (cases "enrich_oa cfg net meta w1")
        with enrich_oa_count[where cfg=cfg and net=net and m=meta and w=w1] obtain k where
          k: "ticks w2 = ticks w1 + 2 * k" "length (requests w2) = length (requests w1) + k"
          by auto
        from Inr \<open>item = Some it\<close> Some g e c k show ?thesis
          by (cases x)
             (auto simp add: process_doi_def crossref_lookup_doi_def io_bind_def time_time_def
                io_return_def intro: exI[of _ "Suc k"])
      qed
    qed
  qed
qed

lemma process_url_clock:
  "case process_url cfg net u start w of
     (Inl e, w') \<Rightarrow>
       \<exists>k. ticks w' = ticks w + 2 * k \<and> length (requests w') = length (requests w) + k
   | (Inr r, w') \<Rightarrow>
       \<exists>k. ticks w' = ticks w + 2 * k + 1 \<and> length (requests w') = length (requests w) + k
           \<and> processing_time r = clock net (ticks w + 2 * k) - start"
proof (cases "re_search (arxiv_abs_at not_space) u")
  case (Some aid)
  then show ?thesis
    by (auto simp add: process_url_def io_bind_def time_time_def io_return_def intro: exI[of _ 0])
next
  case None
  show ?thesis
  proof (cases "re_search doi_at u")
    case (Some m)
    with None show ?thesis
      using process_doi_clock[where cfg=cfg and net=net and d="rstrip m ''.,;)''"
                                and start=start and w=w]
      by (simp add: process_url_def)
  next
    case None
    with \<open>re_search (arxiv_abs_at not_space) u = None\<close> show ?thesis
      by (auto simp add: process_url_def io_bind_def time_time_def io_return_def
          intro: exI[of _ 0])
  qed
qed

lemma process_entry_body_clock:
  "case process_entry_body cfg net entry start w of
     (Inl e, w') \<Rightarrow>
       \<exists>k. ticks w' = ticks w + 2 * k \<and> length (requests w') = length (requests w) + k
   | (Inr r, w') \<Rightarrow>
       \<exists>k. ticks w' = ticks w + 2 * k + 1 \<and> length (requests w') = length (requests w) + k
           \<and> processing_time r = clock net (ticks w + 2 * k) - start"
  using process_url_clock[where cfg=cfg and net=net and u=entry and start=start and w=w]
        process_doi_clock[where cfg=cfg and net=net and d=entry and start=start and w=w]
  by (simp add: process_entry_body_def)

text \<open>
  C3. \<open>_process_entry\<close> returns a result for every identifier and never raises. The
  result carries the elapsed time: the last reading of the clock the call takes minus
  its first one, the readings between them being the two that the gateway takes for each
  request of the call. When the body of the \<open>try\<close> raises an exception, the result is in
  state failed, with the text of the exception as its error message.
\<close>

theorem process_entry_always_returns:
  "\<exists>r w'. process_entry cfg net entry w = (Inr r, w')
     \<and> ticks w' = ticks w + 2 + 2 * (length (requests w') - length (requests w))
     \<and> processing_time r = clock net (ticks w' - 1) - clock net (ticks w)
     \<and> (\<forall>e w1. process_entry_body cfg net entry (clock net (ticks w)) (w\<lparr>ticks := Suc (ticks w)\<rparr>)
                  = (Inl e, w1)
          \<longrightarrow> url r = entry \<and> state r = FAILED \<and> metadata r = None
              \<and> error_message r = Some (str_exn e))"
proof -
  let ?w1 = "w\<lparr>ticks := Suc (ticks w)\<rparr>"
  let ?start = "clock net (ticks w)"
  obtain x w2 where b: "process_entry_body cfg net entry ?start ?w1 = (x, w2)"
    by (cases "process_entry_body cfg net entry ?start ?w1")
  show ?thesis
  proof (cases x)
    case (Inl e)
    with b process_entry_body_clock[where cfg=cfg and net=net and entry=entry
                                      and start="?start" and w="?w1"]
    obtain k where "ticks w2 = Suc (ticks w) + 2 * k"
      "length (requests w2) = length (requests w) + k"
      by auto
    with b Inl show ?thesis
      by (simp add: process_entry_def io_bind_def io_catch_def time_time_def io_return_def)
  next
    case (Inr r)
    with b process_entry_body_clock[where cfg=cfg and net=net and entry=entry
                                      and start="?start" and w="?w1"]
    obtain k where "ticks w2 = Suc (ticks w) + 2 * k + 1"
      "length (requests w2) = length (requests w) + k"
      "processing_time r = clock net (Suc (ticks w) + 2 * k) - ?start"
      by auto
    with b Inr show ?thesis
      by (simp add: process_entry_def io_bind_def io_catch_def time_time_def io_return_def)
  qed
qed

lemma fig_body:
  "process_entry_body no_email figure_net ''10.7717/peerj.1/fig-3'' (clock figure_net 0)
     (empty_world\<lparr>ticks := Suc 0\<rparr>)
   = (Inl none_has_no_doi,
      empty_world\<lparr>ticks := 3, requests := [Crossref_work ''10.7717/peerj.1/fig-3''],
                   last_request_time := 2\<rparr>)"
  by (simp add: process_entry_body_def startswith_def process_doi_def crossref_lookup_doi_def
      gateway_get_def throttle_def time_time_def time_sleep_def rate_delay_def session_get_def
      io_bind_def io_raise_def io_return_def figure_net_def silent_net_def fig_none
      empty_world_def no_email_def)

theorem process_entry_always_returns_witness:
  "\<exists>r w'. process_entry no_email figure_net ''10.7717/peerj.1/fig-3'' empty_world = (Inr r, w')
     \<and> requests w' = [Crossref_work ''10.7717/peerj.1/fig-3''] \<and> ticks w' = 4
     \<and> processing_time r = 3 \<and> state r = FAILED
     \<and> error_message r = Some (str_exn none_has_no_doi)"
  using process_entry_always_returns[of no_email figure_net "''10.7717/peerj.1/fig-3''" empty_world]
        fig_body
  by (auto simp add: empty_world_def figure_net_def silent_net_def process_entry_def
      io_bind_def io_catch_def time_time_def io_return_def)

section \<open>Ad-hoc search: a figure item\<close>

text \<open>
  C5. A Crossref item whose DOI matches the figure pattern normalizes to \<open>None\<close>, and
  \<open>search_ad_hoc\<close> then raises \<open>AttributeError\<close> on reading \<open>meta.doi\<close> instead of
  leaving the item out: here on a search whose only Crossref hit is such an item.
\<close>

theorem search_ad_hoc_fails_on_figure_item:
  "crossref_to_metadata figure_item = None
   \<and> search_ad_hoc no_email figure_net ''peerj'' 10 empty_world
       = (Inl none_has_no_doi,
          empty_world\<lparr>requests := [Arxiv_query ''peerj'' 5, Crossref_works ''peerj'' 5],
                       ticks := 4, last_request_time := 3, sleeps := [1]\<rparr>)"
  by (simp add: fig_none search_ad_hoc_def search_merge_def per_source_def arxiv_search_def
      crossref_search_def gateway_get_def throttle_def time_time_def time_sleep_def
      rate_delay_def session_get_def io_bind_def io_return_def io_raise_def io_lift_def
      crossref_step_def figure_net_def silent_net_def empty_world_def no_email_def)

section \<open>Paper lists\<close>

lemma dict_fromkeys_set [simp]: "set (dict_fromkeys xs) = set xs"
  by (induction xs rule: dict_fromkeys.induct) auto

lemma dict_fromkeys_distinct: "distinct (dict_fromkeys xs)"
  by (induction xs rule: dict_fromkeys.induct) auto

lemma dict_fromkeys_first_seen:
  "x \<notin> set pre \<Longrightarrow> \<exists>tail. dict_fromkeys (pre @ x # post) = dict_fromkeys pre @ x # tail"
proof (induction pre arbitrary: post rule: dict_fromkeys.induct)
  case 1
  show ?case by simp
next
  case (2 p pre)
  from "2.prems" have "x \<notin> set (filter (\<lambda>y. y \<noteq> p) pre)" and "x \<noteq> p" by auto
  from "2.IH"[OF this(1), of "filter (\<lambda>y. y \<noteq> p) post"] this(2)
  show ?case by auto
qed

lemma rstrip_last: "rstrip s cs = [] \<or> last (rstrip s cs) \<notin> set cs"
proof (cases "dropWhile (\<lambda>c. c \<in> set cs) (rev s)")
  case Nil
  then show ?thesis by (simp add: rstrip_def)
next
  case (Cons a as)
  then have "a \<notin> set cs" using hd_dropWhile[of "\<lambda>c. c \<in> set cs" "rev s"] by auto
  with Cons show ?thesis by (simp add: rstrip_def)
qed

lemma rstrip_keeps:
  assumes "c \<notin> set cs"
  shows "rstrip (xs @ c # ys) cs = xs @ c # rstrip ys cs"
proof (cases "\<forall>y\<in>set ys. y \<in> set cs")
  case True
  with assms show ?thesis by (simp add: rstrip_def dropWhile_append)
next
  case False
  then show ?thesis by (auto simp add: rstrip_def dropWhile_append)
qed

lemma rstrip_slash:
  "rstrip (xs @ CHR ''/'' # ys) ''.,;)'' = xs @ CHR ''/'' # rstrip ys ''.,;)''"
  by (rule rstrip_keeps) simp

lemma findall_from_matches:
  "m \<in> set (findall_from pat k s) \<Longrightarrow> \<exists>t. pat t = Some m"
  by (induction pat k s rule: findall_from.induct) (auto split: option.splits)

lemma doi_at_shape:
  "doi_at t = Some m \<Longrightarrow> \<exists>ds body. m = ''10.'' @ ds @ CHR ''/'' # body"
  by (auto simp add: doi_at_def Let_def split: if_splits)

lemma url_at_shape:
  "url_at t = Some m \<Longrightarrow> \<exists>body. m = ''http://'' @ body \<or> m = ''https://'' @ body"
  by (auto simp add: url_at_def Let_def split: if_splits)

lemma doi_entry_bare:
  assumes "m \<in> set (findall doi_at text)"
  shows "startswith (rstrip m ''.,;)'') ''10.''"
proof -
  from assms obtain t where "doi_at t = Some m" unfolding findall_def
    by (blast dest: findall_from_matches)
  then obtain ds body where "m = (''10.'' @ ds) @ CHR ''/'' # body"
    by (auto dest: doi_at_shape)
  then have "rstrip m ''.,;)'' = (''10.'' @ ds) @ CHR ''/'' # rstrip body ''.,;)''"
    by (simp only: rstrip_slash)
  then show ?thesis by (simp add: startswith_def)
qed

lemma url_entry_http:
  assumes "m \<in> set (findall url_at text)"
  shows "startswith (rstrip m ''.,;)'') ''http''"
proof -
  from assms obtain t where "url_at t = Some m" unfolding findall_def
    by (blast dest: findall_from_matches)
  then obtain body where "m = ''http:/'' @ CHR ''/'' # body \<or> m = ''https:/'' @ CHR ''/'' # body"
    by (auto dest: url_at_shape)
  then have "rstrip m ''.,;)'' = ''http:/'' @ CHR ''/'' # rstrip body ''.,;)''
           \<or> rstrip m ''.,;)'' = ''https:/'' @ CHR ''/'' # rstrip body ''.,;)''"
    by (auto simp only: rstrip_slash)
  then show ?thesis by (auto simp add: startswith_def)
qed

lemma parse_entries_shape:
  assumes "e \<in> set (parse_entries text)"
  shows "e \<noteq> [] \<and> last e \<notin> set ''.,;)''
         \<and> (startswith e ''10.'' \<or> startswith e ''http'' \<and> \<not> contains e ''doi.org'')"
proof -
  from assms consider
      (d) m where "m \<in> set (findall doi_at text)" "e = rstrip m ''.,;)''"
    | (u) m where "m \<in> set (findall url_at text)" "e = rstrip m ''.,;)''"
                  "\<not> contains e ''doi.org''"
    by (auto simp add: parse_entries_def)
  then show ?thesis
  proof cases
    case d
    then have s: "startswith e ''10.''" by (simp add: doi_entry_bare)
    then have "e \<noteq> []" by (auto simp add: startswith_def)
    with s d(2) rstrip_last[of m "''.,;)''"] show ?thesis by auto
  next
    case u
    then have s: "startswith e ''http''" by (simp add: url_entry_http)
    then have "e \<noteq> []" by (auto simp add: startswith_def)
    with s u rstrip_last[of m "''.,;)''"] show ?thesis by auto
  qed
qed

text \<open>
  C6, as the code has it. For a file that exists, \<open>_parse_paper_list\<close> returns the matches
  of the DOI pattern and the matches of the URL pattern, each with its trailing
  punctuation trimmed, without the URLs that contain "doi.org", and with no duplicates.
  Every entry is non-empty and does not end in one of the characters ".,;)"; a DOI is
  returned bare (the entry starts with "10."), not as a resolver URL; the other entries
  start with "http". The order is that of the list of trimmed matches, DOIs before URLs,
  each entry standing where it first occurs.
\<close>

theorem parse_paper_list_entries:
  assumes "fs path = Some text"
  shows "distinct (parse_paper_list fs path)
       \<and> set (parse_paper_list fs path)
           = (\<lambda>d. rstrip d ''.,;)'') ` set (findall doi_at text)
             \<union> {u \<in> (\<lambda>u. rstrip u ''.,;)'') ` set (findall url_at text).
                  \<not> contains u ''doi.org''}
       \<and> (\<forall>e\<in>set (parse_paper_list fs path).
             e \<noteq> [] \<and> last e \<notin> set ''.,;)''
             \<and> (startswith e ''10.'' \<or> startswith e ''http'' \<and> \<not> contains e ''doi.org''))
       \<and> (\<forall>pre x post. parse_entries text = pre @ x # post \<and> x \<notin> set pre \<longrightarrow>
             (\<exists>tail. parse_paper_list fs path = dict_fromkeys pre @ x # tail))"
proof -
  have r: "parse_paper_list fs path = dict_fromkeys (parse_entries text)"
    using assms by (simp add: parse_paper_list_def)
  have 1: "distinct (parse_paper_list fs path)" by (simp add: r dict_fromkeys_distinct)
  have 2: "set (parse_paper_list fs path)
           = (\<lambda>d. rstrip d ''.,;)'') ` set (findall doi_at text)
             \<union> {u \<in> (\<lambda>u. rstrip u ''.,;)'') ` set (findall url_at text).
                  \<not> contains u ''doi.org''}"
    by (auto simp add: r parse_entries_def)
  have 3: "\<forall>e\<in>set (parse_paper_list fs path).
             e \<noteq> [] \<and> last e \<notin> set ''.,;)''
             \<and> (startswith e ''10.'' \<or> startswith e ''http'' \<and> \<not> contains e ''doi.org'')"
    using parse_entries_shape by (simp add: r)
  have 4: "\<forall>pre x post. parse_entries text = pre @ x # post \<and> x \<notin> set pre \<longrightarrow>
             (\<exists>tail. parse_paper_list fs path = dict_fromkeys pre @ x # tail)"
    by (auto simp add: r dest: dict_fromkeys_first_seen)
  from 1 2 3 4 show ?thesis by blast
qed

theorem parse_paper_list_entries_witness:
  "[''papers.txt'' \<mapsto> sample_text] ''papers.txt'' = Some sample_text
   \<and> distinct (parse_paper_list [''papers.txt'' \<mapsto> sample_text] ''papers.txt'')
   \<and> set (parse_paper_list [''papers.txt'' \<mapsto> sample_text] ''papers.txt'')
       = (\<lambda>d. rstrip d ''.,;)'') ` set (findall doi_at sample_text)
         \<union> {u \<in> (\<lambda>u. rstrip u ''.,;)'') ` set (findall url_at sample_text).
              \<not> contains u ''doi.org''}"
  using parse_paper_list_entries[of "[''papers.txt'' \<mapsto> sample_text]" "''papers.txt''" sample_text]
  by simp

text \<open>
  C6, counterexample: on the text of the specification's example the DOI is returned
  bare, and its resolver URL is not among the entries.
\<close>

theorem parse_paper_list_keeps_doi_bare:
  "parse_paper_list [''papers.txt'' \<mapsto> sample_text] ''papers.txt''
     = [''10.1016/j.oregeorev.2018.12.018'', ''https://arxiv.org/abs/1901.01234'']
   \<and> ''https://doi.org/10.1016/j.oregeorev.2018.12.018''
       \<notin> set (parse_paper_list [''papers.txt'' \<mapsto> sample_text] ''papers.txt'')"
  by (simp add: parse_paper_list_def parse_entries_def sample_text_def findall_def doi_at_def
      url_at_def startswith_def is_digit_def is_space_def url_char_def rstrip_def)

section \<open>The merge of the specification\<close>

lemma keys_of_Nil [simp]: "keys_of [] = {}"
  by (simp add: keys_of_def)

lemma keys_of_Cons_None [simp]: "keys_of ((None, r) # cs) = keys_of cs"
  by (simp add: keys_of_def)

lemma keys_of_Cons_Some [simp]: "keys_of ((Some k, r) # cs) = insert k (keys_of cs)"
  by (simp add: keys_of_def)

lemma keys_of_append [simp]: "keys_of (xs @ ys) = keys_of xs \<union> keys_of ys"
  by (simp add: keys_of_def List.map_filter_def)

lemma keys_of_iff: "k \<in> keys_of cs \<longleftrightarrow> Some k \<in> fst ` set cs"
proof (induction cs)
  case Nil
  show ?case by simp
next
  case (Cons c cs)
  then show ?case by (cases c; cases "fst c") auto
qed

lemma finite_keys_of [simp]: "finite (keys_of cs)"
  by (simp add: keys_of_def)

lemma spec_keep_first_append:
  "spec_keep_first (xs @ ys) s = spec_keep_first xs s @ spec_keep_first ys (s \<union> keys_of xs)"
  by (induction xs s rule: spec_keep_first.induct) (auto simp add: insert_absorb)


text \<open>The first candidate of a key is kept, and so is every candidate without a key.\<close>

lemma spec_keep_first_first:
  assumes "cs = pre @ c # post" and "fst c = Some k" and "Some k \<notin> fst ` set pre" and "k \<notin> s"
  shows "spec_keep_first cs s
           = spec_keep_first pre s @ snd c # spec_keep_first post (insert k (s \<union> keys_of pre))"
proof -
  from assms(3) have "k \<notin> keys_of pre" by (simp add: keys_of_iff)
  with assms(1,2,4) show ?thesis
    by (cases c) (simp add: spec_keep_first_append)
qed

lemma spec_keep_first_unkeyed:
  assumes "c \<in> set cs" and "fst c = None"
  shows "snd c \<in> set (spec_keep_first cs s)"
proof -
  from assms(1) obtain pre post where "cs = pre @ c # post" by (auto dest: split_list)
  with assms(2) show ?thesis by (cases c) (simp add: spec_keep_first_append)
qed

text \<open>One record is kept for each key not registered before, and one for each
  candidate without a key.\<close>

lemma spec_keep_first_length:
  "length (spec_keep_first cs s)
     = card (keys_of cs - s) + length (filter (\<lambda>c. fst c = None) cs)"
proof (induction cs s rule: spec_keep_first.induct)
  case (1 seen)
  show ?case by simp
next
  case (2 r cs seen)
  then show ?case by simp
next
  case (3 k r cs seen)
  show ?case
  proof (cases "k \<in> seen")
    case True
    then have "insert k (keys_of cs) - seen = keys_of cs - seen" by auto
    with True 3 show ?thesis by simp
  next
    case False
    then have e: "insert k (keys_of cs) - seen = insert k (keys_of cs - insert k seen)" by auto
    have "k \<notin> keys_of cs - insert k seen" by simp
    then have "card (insert k (keys_of cs - insert k seen)) = Suc (card (keys_of cs - insert k seen))"
      by (simp add: card_insert_disjoint)
    with False 3 e show ?thesis by simp
  qed
qed




section \<open>Ad-hoc search: the three loops\<close>

lemma for_each_Cons_Inr:
  assumes "for_each body (x # xs) s w = (Inr s'', w'')"
  obtains s' w' where "body x s w = (Inr s', w')" and "for_each body xs s' w' = (Inr s'', w'')"
proof -
  obtain y w' where b: "body x s w = (y, w')" by (cases "body x s w")
  with assms show ?thesis
    by (cases y) (auto simp add: io_bind_def intro: that)
qed

text \<open>
  A loop whose body treats each item as the merge of the specification treats the
  candidate of the item, treats the list of items as that merge treats the list of
  candidates.
\<close>

lemma for_each_refines:
  assumes "\<And>x rs seen w rs' seen' w'.
             x \<in> set xs \<Longrightarrow> body x (rs, seen) w = (Inr (rs', seen'), w') \<Longrightarrow>
             map Inr rs' = map Inr rs @ spec_keep_first [cand x] seen
             \<and> seen' = seen \<union> keys_of [cand x]"
    and "for_each body xs (rs, seen) w = (Inr (rs', seen'), w')"
  shows "map Inr rs' = map Inr rs @ spec_keep_first (map cand xs) seen
         \<and> seen' = seen \<union> keys_of (map cand xs)"
  using assms
proof (induction xs arbitrary: rs seen w)
  case Nil
  then show ?case by (simp add: io_return_def)
next
  case (Cons x xs)
  from Cons.prems(2) obtain st1 w1 where
    s: "body x (rs, seen) w = (Inr st1, w1)" and
    l: "for_each body xs st1 w1 = (Inr (rs', seen'), w')"
    by (rule for_each_Cons_Inr)
  obtain rs1 seen1 where st1: "st1 = (rs1, seen1)" by (cases st1)
  have one: "map Inr rs1 = map Inr rs @ spec_keep_first [cand x] seen
             \<and> seen1 = seen \<union> keys_of [cand x]"
    using Cons.prems(1)[of x rs seen w rs1 seen1 w1] s st1 by simp
  have rest: "map Inr rs' = map Inr rs1 @ spec_keep_first (map cand xs) seen1
              \<and> seen' = seen1 \<union> keys_of (map cand xs)"
    using Cons.IH[of rs1 seen1 w1] Cons.prems(1) l st1 by simp
  have "spec_keep_first (map cand (x # xs)) seen
          = spec_keep_first [cand x] seen @ spec_keep_first (map cand xs) (seen \<union> keys_of [cand x])"
    using spec_keep_first_append[of "[cand x]" "map cand xs" seen] by simp
  moreover have "keys_of (map cand (x # xs)) = keys_of [cand x] \<union> keys_of (map cand xs)"
    using keys_of_append[of "[cand x]" "map cand xs"] by simp
  ultimately show ?case using one rest by auto
qed

text \<open>\<open>_enrich_oa\<close> changes the OA fields of a record only.\<close>

lemma enrich_oa_value_keeps_identity:
  assumes "enrich_oa_value cfg net m = Inr m'"
  shows "doi m' = doi m \<and> arxiv_id m' = arxiv_id m \<and> title m' = title m"
  using assms
  by (auto simp add: enrich_oa_value_def enrich_oa_value_cases openalex_fallback_value
       split: if_splits sum.splits option.splits)

lemma enrich_oa_returns_value:
  "enrich_oa cfg net m w = (Inr m', w') \<Longrightarrow> enrich_oa_value cfg net m = Inr m'"
  using enrich_oa_any_world[of cfg net m w] by simp

lemma arxiv_entry_no_doi: "arxiv_entry_to_metadata entry = Inr m \<Longrightarrow> doi m = None"
  by (auto simp add: arxiv_entry_to_metadata_def sum_bind_def split: sum.splits)

lemma arxiv_results_no_doi: "arxiv_results entries = Inr metas \<Longrightarrow> \<forall>m\<in>set metas. doi m = None"
proof (induction entries arbitrary: metas)
  case Nil
  then show ?case by simp
next
  case (Cons e es)
  then show ?case
    by (auto simp add: sum_bind_def split: sum.splits dest: arxiv_entry_no_doi)
qed

text \<open>The three loop bodies.\<close>

lemma arxiv_step_refines:
  assumes "doi m = None" and "arxiv_step m (rs, seen) w = (Inr (rs', seen'), w')"
  shows "map Inr rs' = map Inr rs @ spec_keep_first [arxiv_candidate m] seen
         \<and> seen' = seen \<union> keys_of [arxiv_candidate m]"
  using assms
  by (auto simp add: arxiv_step_def io_return_def Let_def arxiv_candidate_def spec_dedup_key_def
       split: if_splits)

lemma crossref_step_refines:
  assumes "crossref_step cfg net item (rs, seen) w = (Inr (rs', seen'), w')"
  shows "map Inr rs' = map Inr rs @ spec_keep_first [crossref_candidate cfg net item] seen
         \<and> seen' = seen \<union> keys_of [crossref_candidate cfg net item]"
proof (cases "crossref_to_metadata item")
  case None
  with assms show ?thesis by (simp add: crossref_step_def io_raise_def)
next
  case (Some m)
  have key: "truthy (doi m) \<Longrightarrow> spec_dedup_key m = or_str (doi m) []"
    by (cases "doi m") (auto simp add: spec_dedup_key_def)
  show ?thesis
  proof (cases "truthy (doi m) \<and> or_str (doi m) [] \<in> seen")
    case True
    with Some assms key show ?thesis
      by (auto simp add: crossref_step_def io_return_def crossref_candidate_def)
  next
    case False
    obtain y w1 where e: "enrich_oa cfg net m w = (y, w1)" by (cases "enrich_oa cfg net m w")
    show ?thesis
    proof (cases y)
      case (Inl ex)
      with e Some False assms show ?thesis
        by (auto simp add: crossref_step_def io_bind_def Let_def)
    next
      case (Inr m')
      with e have v: "enrich_oa_value cfg net m = Inr m'" by (auto dest: enrich_oa_returns_value)
      with Inr e Some False assms key show ?thesis
        by (auto simp add: crossref_step_def io_bind_def io_return_def Let_def
            crossref_candidate_def crossref_record_def sum_bind_def)
    qed
  qed
qed

lemma openalex_step_refines:
  assumes "openalex_step cfg net work (rs, seen) w = (Inr (rs', seen'), w')"
  shows "map Inr rs' = map Inr rs @ spec_keep_first [openalex_candidate cfg net work] seen
         \<and> seen' = seen \<union> keys_of [openalex_candidate cfg net work]"
proof -
  let ?m = "openalex_to_metadata work"
  have key: "spec_dedup_key ?m = or_str (doi ?m) (title ?m)"
    by (simp add: spec_dedup_key_def openalex_to_metadata_def)
  show ?thesis
  proof (cases "or_str (doi ?m) (title ?m) \<in> seen")
    case True
    with assms key show ?thesis
      by (auto simp add: openalex_step_def io_return_def Let_def openalex_candidate_def)
  next
    case False
    show ?thesis
    proof (cases "truthy (doi ?m) \<and> \<not> truthy (oa_url ?m)")
      case ne: False
      with False assms key show ?thesis
        by (auto simp add: openalex_step_def io_bind_def io_return_def Let_def
            openalex_candidate_def openalex_record_def)
    next
      case True
      obtain y w1 where e: "enrich_oa cfg net ?m w = (y, w1)" by (cases "enrich_oa cfg net ?m w")
      show ?thesis
      proof (cases y)
        case (Inl ex)
        with e True False assms show ?thesis
          by (auto simp add: openalex_step_def io_bind_def Let_def)
      next
        case (Inr m')
        with e have v: "enrich_oa_value cfg net ?m = Inr m'"
          by (auto dest: enrich_oa_returns_value)
        with Inr e True False assms key show ?thesis
          by (auto simp add: openalex_step_def io_bind_def io_return_def Let_def
              openalex_candidate_def openalex_record_def sum_bind_def)
      qed
    qed
  qed
qed

text \<open>A call that returns has got the three answers and has gone through the three loops.\<close>

lemma search_merge_stages:
  assumes "search_merge cfg net query n w = (Inr st3, w')"
  obtains entries metas items works st1 st2 wa wb wc wd we where
    "arxiv_feed net query (per_source n) = Inr entries"
    and "arxiv_results entries = Inr metas"
    and "crossref_works net query (per_source n) = Inr items"
    and "openalex_works net query (min (per_source n) 200) = Inr works"
    and "for_each arxiv_step metas ([], {}) wa = (Inr st1, wb)"
    and "for_each (crossref_step cfg net) items st1 wc = (Inr st2, wd)"
    and "for_each (openalex_step cfg net) works st2 we = (Inr st3, w')"
proof -
  let ?p = "per_source n"
  obtain wa where ga: "gateway_get cfg net (Arxiv_query query ?p) (arxiv_feed net query ?p) w
                         = (arxiv_feed net query ?p, wa)"
    by (rule gateway_get_effect)
  obtain entries where a: "arxiv_feed net query ?p = Inr entries"
    using assms ga
    by (cases "arxiv_feed net query ?p")
       (auto simp add: search_merge_def arxiv_search_def io_bind_def)
  obtain metas where ms: "arxiv_results entries = Inr metas"
    using assms ga a
    by (cases "arxiv_results entries")
       (auto simp add: search_merge_def arxiv_search_def io_bind_def io_lift_def)
  obtain y1 wb where l1: "for_each arxiv_step metas ([], {}) wa = (y1, wb)"
    by (cases "for_each arxiv_step metas ([], {}) wa")
  obtain st1 where y1: "y1 = Inr st1"
    using assms ga a ms l1
    by (cases y1) (auto simp add: search_merge_def arxiv_search_def io_bind_def io_lift_def)
  obtain wc where gc: "gateway_get cfg net (Crossref_works query ?p) (crossref_works net query ?p) wb
                         = (crossref_works net query ?p, wc)"
    by (rule gateway_get_effect)
  obtain items where c: "crossref_works net query ?p = Inr items"
    using assms ga a ms l1 y1 gc
    by (cases "crossref_works net query ?p")
       (auto simp add: search_merge_def arxiv_search_def crossref_search_def io_bind_def
          io_lift_def)
  obtain y2 wd where l2: "for_each (crossref_step cfg net) items st1 wc = (y2, wd)"
    by (cases "for_each (crossref_step cfg net) items st1 wc")
  obtain st2 where y2: "y2 = Inr st2"
    using assms ga a ms l1 y1 gc c l2
    by (cases y2)
       (auto simp add: search_merge_def arxiv_search_def crossref_search_def io_bind_def
          io_lift_def)
  obtain we where go: "gateway_get cfg net (OpenAlex_works query (min ?p 200))
                         (openalex_works net query (min ?p 200)) wd
                       = (openalex_works net query (min ?p 200), we)"
    by (rule gateway_get_effect)
  obtain works where o: "openalex_works net query (min ?p 200) = Inr works"
    using assms ga a ms l1 y1 gc c l2 y2 go
    by (cases "openalex_works net query (min ?p 200)")
       (auto simp add: search_merge_def arxiv_search_def crossref_search_def openalex_search_def
          io_bind_def io_lift_def)
  have l3: "for_each (openalex_step cfg net) works st2 we = (Inr st3, w')"
    using assms ga a ms l1 y1 gc c l2 y2 go o
    by (simp add: search_merge_def arxiv_search_def crossref_search_def openalex_search_def
        io_bind_def io_lift_def)
  from a ms c o l1[unfolded y1] l2[unfolded y2] l3 show ?thesis by (rule that)
qed

text \<open>The three loops do what the merge of the specification does with the candidates.\<close>

lemma search_merge_refines:
  assumes "search_merge cfg net query n w = (Inr (rs, seen), w')"
  obtains entries metas items works where
    "arxiv_feed net query (per_source n) = Inr entries"
    and "arxiv_results entries = Inr metas"
    and "crossref_works net query (per_source n) = Inr items"
    and "openalex_works net query (min (per_source n) 200) = Inr works"
    and "candidates cfg net query n
           = map arxiv_candidate metas @ map (crossref_candidate cfg net) items
             @ map (openalex_candidate cfg net) works"
    and "map Inr rs = spec_keep_first (candidates cfg net query n) {}"
    and "seen = keys_of (candidates cfg net query n)"
proof -
  from assms obtain entries metas items works st1 st2 wa wb wc wd we where st:
    "arxiv_feed net query (per_source n) = Inr entries"
    "arxiv_results entries = Inr metas"
    "crossref_works net query (per_source n) = Inr items"
    "openalex_works net query (min (per_source n) 200) = Inr works"
    "for_each arxiv_step metas ([], {}) wa = (Inr st1, wb)"
    "for_each (crossref_step cfg net) items st1 wc = (Inr st2, wd)"
    "for_each (openalex_step cfg net) works st2 we = (Inr (rs, seen), w')"
    by (rule search_merge_stages)
  obtain r1 s1 where st1: "st1 = (r1, s1)" by (cases st1)
  obtain r2 s2 where st2: "st2 = (r2, s2)" by (cases st2)
  let ?A = "map arxiv_candidate metas"
  let ?C = "map (crossref_candidate cfg net) items"
  let ?O = "map (openalex_candidate cfg net) works"
  have nd: "\<forall>m\<in>set metas. doi m = None" using st(2) by (rule arxiv_results_no_doi)
  have a: "map Inr r1 = map Inr [] @ spec_keep_first ?A {} \<and> s1 = {} \<union> keys_of ?A"
  proof (rule for_each_refines[where body = arxiv_step and w = wa and w' = wb])
    show "for_each arxiv_step metas ([], {}) wa = (Inr (r1, s1), wb)"
      using st(5) st1 by simp
  next
    fix x rs seen w rs' seen' w'
    assume "x \<in> set metas" and "arxiv_step x (rs, seen) w = (Inr (rs', seen'), w')"
    with nd show "map Inr rs' = map Inr rs @ spec_keep_first [arxiv_candidate x] seen
                  \<and> seen' = seen \<union> keys_of [arxiv_candidate x]"
      by (intro arxiv_step_refines[where w = w and w' = w']) simp_all
  qed
  have c: "map Inr r2 = map Inr r1 @ spec_keep_first ?C s1 \<and> s2 = s1 \<union> keys_of ?C"
  proof (rule for_each_refines[where body = "crossref_step cfg net" and w = wc and w' = wd])
    show "for_each (crossref_step cfg net) items (r1, s1) wc = (Inr (r2, s2), wd)"
      using st(6) st1 st2 by simp
  next
    fix x rs seen w rs' seen' w'
    assume "crossref_step cfg net x (rs, seen) w = (Inr (rs', seen'), w')"
    then show "map Inr rs' = map Inr rs @ spec_keep_first [crossref_candidate cfg net x] seen
               \<and> seen' = seen \<union> keys_of [crossref_candidate cfg net x]"
      by (rule crossref_step_refines)
  qed
  have o: "map Inr rs = map Inr r2 @ spec_keep_first ?O s2 \<and> seen = s2 \<union> keys_of ?O"
  proof (rule for_each_refines[where body = "openalex_step cfg net" and w = we and w' = w'])
    show "for_each (openalex_step cfg net) works (r2, s2) we = (Inr (rs, seen), w')"
      using st(7) st2 by simp
  next
    fix x rs0 seen0 w0 rs1 seen1 w1
    assume "openalex_step cfg net x (rs0, seen0) w0 = (Inr (rs1, seen1), w1)"
    then show "map Inr rs1 = map Inr rs0 @ spec_keep_first [openalex_candidate cfg net x] seen0
               \<and> seen1 = seen0 \<union> keys_of [openalex_candidate cfg net x]"
      by (rule openalex_step_refines)
  qed
  have cs: "candidates cfg net query n = ?A @ ?C @ ?O"
    using st(1-4) by (simp add: candidates_def sum_bind_def Let_def)
  have m: "map Inr rs = spec_keep_first (candidates cfg net query n) {}"
    using a c o by (simp add: cs spec_keep_first_append Un_assoc)
  have k: "seen = keys_of (candidates cfg net query n)"
    using a c o by (simp add: cs Un_assoc)
  from st(1-4) cs m k show ?thesis by (rule that)
qed

section \<open>Ad-hoc search: the candidates\<close>






lemma openalex_candidate_record:
  assumes "snd (openalex_candidate cfg net work) = Inr r"
  shows "\<exists>m'. r = doi_result m' \<and> doi m' = doi (openalex_to_metadata work)
              \<and> arxiv_id m' = arxiv_id (openalex_to_metadata work)
              \<and> title m' = title (openalex_to_metadata work)"
  using assms
  by (auto simp add: openalex_candidate_def openalex_record_def sum_bind_def Let_def
       split: if_splits sum.splits dest: enrich_oa_value_keeps_identity)


text \<open>The key under which a record is offered is the key of the record itself.\<close>

lemma arxiv_candidate_key:
  "fst (arxiv_candidate m) = Some k \<Longrightarrow> snd (arxiv_candidate m) = Inr r \<Longrightarrow>
     \<exists>m'. metadata r = Some m' \<and> spec_dedup_key m' = k"
  by (auto simp add: arxiv_candidate_def arxiv_result_def)

lemma crossref_candidate_key_of_record:
  assumes "fst (crossref_candidate cfg net item) = Some k"
    and "snd (crossref_candidate cfg net item) = Inr r"
  shows "\<exists>m'. metadata r = Some m' \<and> spec_dedup_key m' = k"
proof (cases "crossref_to_metadata item")
  case None
  with assms show ?thesis by (simp add: crossref_candidate_def)
next
  case (Some m)
  with assms(2) obtain m' where e: "enrich_oa_value cfg net m = Inr m'" and r: "r = doi_result m'"
    by (auto simp add: crossref_candidate_def crossref_record_def sum_bind_def split: sum.splits)
  from e have "spec_dedup_key m' = spec_dedup_key m"
    by (simp add: spec_dedup_key_def enrich_oa_value_keeps_identity)
  with assms(1) Some r show ?thesis
    by (auto simp add: crossref_candidate_def doi_result_def split: if_splits)
qed

lemma openalex_candidate_key_of_record:
  assumes "fst (openalex_candidate cfg net work) = Some k"
    and "snd (openalex_candidate cfg net work) = Inr r"
  shows "\<exists>m'. metadata r = Some m' \<and> spec_dedup_key m' = k"
proof -
  from assms(2) obtain m' where "r = doi_result m'" "doi m' = doi (openalex_to_metadata work)"
    "arxiv_id m' = arxiv_id (openalex_to_metadata work)"
    "title m' = title (openalex_to_metadata work)"
    by (blast dest: openalex_candidate_record)
  with assms(1) show ?thesis
    by (auto simp add: openalex_candidate_def spec_dedup_key_def doi_result_def)
qed

section \<open>Ad-hoc search: the examples\<close>

lemma preprint_meta: "arxiv_entry_to_metadata preprint = Inr preprint_record"
  by (simp add: arxiv_entry_to_metadata_def preprint_def preprint_record_def sum_bind_def
      strip_def is_space_def arxiv_abs_at_def startswith_def not_newline_def replace_def
      py_int_def is_digit_def)


lemma untitled_meta:
  "crossref_to_metadata untitled_item = Some (PaperMetadata_init ''Same title'')"
  by (simp add: crossref_to_metadata_def untitled_item_def plain_item_def PaperMetadata_init_def
      Let_def figure_at_def word_digits_at_def startswith_def crossref_year_def
      crossref_abstract_def)

text \<open>The definitions that a run of the search on an example unfolds.\<close>

lemmas search_run =
  search_merge_def per_source_def arxiv_search_def crossref_search_def openalex_search_def
  gateway_get_def throttle_def time_time_def time_sleep_def rate_delay_def session_get_def
  io_bind_def io_return_def io_lift_def arxiv_step_def crossref_step_def openalex_step_def
  silent_net_def empty_world_def enrich_oa_def no_email_def openalex_fallback_def
  openalex_lookup_doi_def sum_bind_def plain_record_def preprint_record_def
  PaperMetadata_init_def openalex_to_metadata_def openalex_doi_def startswith_def Let_def

lemmas candidates_run =
  candidates_def per_source_def sum_bind_def arxiv_candidate_def crossref_candidate_def
  crossref_record_def openalex_candidate_def openalex_record_def enrich_oa_value_def
  enrich_oa_value_cases openalex_fallback_value spec_dedup_key_def silent_net_def no_email_def
  plain_record_def preprint_record_def PaperMetadata_init_def openalex_to_metadata_def
  openalex_doi_def startswith_def Let_def

section \<open>Ad-hoc search: the dedup key\<close>

text \<open>
  C7, as the code has it. When \<open>search_ad_hoc\<close> gets through its three loops, the
  merged list is what the merge of the specification makes of the candidates, taken in
  the order arXiv, Crossref, OpenAlex: the records of the candidates that have no key or
  that are the first with their key, in that order, and \<open>seen_keys\<close> holds the keys of
  all the candidates. The key of a candidate is the dedup key of the record it offers:
  its DOI if present, else its arXiv ID if present, else its title, as the record has
  it. So the first candidate of each key is kept, every candidate without a key (a
  Crossref record without a DOI) is kept, and nothing else: the list has one record for
  each key and one for each candidate without a key.
\<close>

theorem search_merge_keeps_first_of_each_key:
  assumes "search_merge cfg net query n w = (Inr (rs, seen), w')"
  shows "map Inr rs = spec_keep_first (candidates cfg net query n) {}
       \<and> seen = keys_of (candidates cfg net query n)
       \<and> (\<forall>c\<in>set (candidates cfg net query n). \<forall>k r.
             fst c = Some k \<and> snd c = Inr r \<longrightarrow>
             (\<exists>m. metadata r = Some m \<and> spec_dedup_key m = k))
       \<and> (\<forall>pre c post k.
             candidates cfg net query n = pre @ c # post \<and> fst c = Some k
             \<and> Some k \<notin> fst ` set pre \<longrightarrow> snd c \<in> Inr ` set rs)
       \<and> (\<forall>c\<in>set (candidates cfg net query n). fst c = None \<longrightarrow> snd c \<in> Inr ` set rs)
       \<and> length rs = card (keys_of (candidates cfg net query n))
                      + length (filter (\<lambda>c. fst c = None) (candidates cfg net query n))"
proof -
  let ?cs = "candidates cfg net query n"
  from assms obtain entries metas items works where
    cs: "?cs = map arxiv_candidate metas @ map (crossref_candidate cfg net) items
               @ map (openalex_candidate cfg net) works"
    and m: "map Inr rs = spec_keep_first ?cs {}"
    and k: "seen = keys_of ?cs"
    by (rule search_merge_refines)
  have kept: "set (spec_keep_first ?cs {}) = Inr ` set rs" using m[symmetric] by simp
  have 3: "\<forall>c\<in>set ?cs. \<forall>k r. fst c = Some k \<and> snd c = Inr r \<longrightarrow>
             (\<exists>m. metadata r = Some m \<and> spec_dedup_key m = k)"
    unfolding cs
    by (auto dest: arxiv_candidate_key crossref_candidate_key_of_record
          openalex_candidate_key_of_record)
  have 4: "\<forall>pre c post k. ?cs = pre @ c # post \<and> fst c = Some k \<and> Some k \<notin> fst ` set pre
             \<longrightarrow> snd c \<in> Inr ` set rs"
  proof (intro allI impI)
    fix pre c post k
    assume h: "?cs = pre @ c # post \<and> fst c = Some k \<and> Some k \<notin> fst ` set pre"
    then have "spec_keep_first ?cs {}
                 = spec_keep_first pre {} @ snd c
                   # spec_keep_first post (insert k ({} \<union> keys_of pre))"
      by (intro spec_keep_first_first) simp_all
    then have "snd c \<in> set (spec_keep_first ?cs {})" by simp
    then show "snd c \<in> Inr ` set rs" by (simp only: kept)
  qed
  have 5: "\<forall>c\<in>set ?cs. fst c = None \<longrightarrow> snd c \<in> Inr ` set rs"
    using spec_keep_first_unkeyed[where cs = "?cs" and s = "{}"] by (simp only: kept) blast
  have "length (map Inr rs :: (exn + ProcessingResult) list)
          = card (keys_of ?cs - {}) + length (filter (\<lambda>c. fst c = None) ?cs)"
    by (simp only: m spec_keep_first_length)
  then have 6: "length rs = card (keys_of ?cs) + length (filter (\<lambda>c. fst c = None) ?cs)"
    by simp
  from m k 3 4 5 6 show ?thesis by blast
qed

lemma mixed_merge:
  "fst (search_merge no_email mixed_net ''oa'' 10 empty_world)
     = Inr ([arxiv_result preprint_record, doi_result plain_record,
             doi_result (PaperMetadata_init ''Same title'')],
            {''10.1000/a'', ''1901.01234v1''})"
  by (simp add: search_run mixed_net_def dup_net_def preprint_meta plain_meta untitled_meta
      open_work_def)

lemma mixed_candidates:
  "candidates no_email mixed_net ''oa'' 10
     = [(Some ''1901.01234v1'', Inr (arxiv_result preprint_record)),
        (Some ''10.1000/a'', Inr (doi_result plain_record)),
        (None, Inr (doi_result (PaperMetadata_init ''Same title''))),
        (Some ''10.1000/a'', Inr (doi_result (openalex_to_metadata open_work)))]"
  by (simp add: candidates_run mixed_net_def dup_net_def preprint_meta plain_meta untitled_meta
      open_work_def)

theorem search_merge_keeps_first_of_each_key_witness:
  "fst (search_merge no_email mixed_net ''oa'' 10 empty_world)
     = Inr ([arxiv_result preprint_record, doi_result plain_record,
             doi_result (PaperMetadata_init ''Same title'')],
            {''10.1000/a'', ''1901.01234v1''})
   \<and> candidates no_email mixed_net ''oa'' 10
       = [(Some ''1901.01234v1'', Inr (arxiv_result preprint_record)),
          (Some ''10.1000/a'', Inr (doi_result plain_record)),
          (None, Inr (doi_result (PaperMetadata_init ''Same title''))),
          (Some ''10.1000/a'', Inr (doi_result (openalex_to_metadata open_work)))]
   \<and> map Inr [arxiv_result preprint_record, doi_result plain_record,
               doi_result (PaperMetadata_init ''Same title'')]
       = spec_keep_first (candidates no_email mixed_net ''oa'' 10) {}
   \<and> {''10.1000/a'', ''1901.01234v1''} = keys_of (candidates no_email mixed_net ''oa'' 10)
   \<and> length [arxiv_result preprint_record, doi_result plain_record,
              doi_result (PaperMetadata_init ''Same title'')]
       = card (keys_of (candidates no_email mixed_net ''oa'' 10))
         + length (filter (\<lambda>c. fst c = None) (candidates no_email mixed_net ''oa'' 10))
   \<and> doi_result (openalex_to_metadata open_work)
       \<noteq> doi_result plain_record"
proof -
  let ?run = "search_merge no_email mixed_net ''oa'' 10 empty_world"
  have m: "?run = (Inr ([arxiv_result preprint_record, doi_result plain_record,
                         doi_result (PaperMetadata_init ''Same title'')],
                        {''10.1000/a'', ''1901.01234v1''}), snd ?run)"
    using mixed_merge by (simp add: prod_eq_iff)
  have d: "doi_result (openalex_to_metadata open_work) \<noteq> doi_result plain_record"
    by (simp add: doi_result_def openalex_to_metadata_def open_work_def plain_record_def
        PaperMetadata_init_def)
  from search_merge_keeps_first_of_each_key[OF m] mixed_merge mixed_candidates d
  show ?thesis by simp
qed

text \<open>
  C7, counterexample. Two OpenAlex works without a DOI whose titles differ in the case of
  one letter have the same normalized title, and both are kept: the key is the title as
  it stands. And two Crossref items without a DOI and with the same title are both kept,
  and register no key.
\<close>

theorem search_merge_keeps_titles_that_differ_in_case:
  "fst (search_merge no_email case_net ''deep learning'' 10 empty_world)
     = Inr ([doi_result (openalex_to_metadata upper_work),
             doi_result (openalex_to_metadata lower_work)],
            {''Deep learning'', ''Deep Learning''})
   \<and> doi (openalex_to_metadata upper_work) = None
   \<and> doi (openalex_to_metadata lower_work) = None
   \<and> arxiv_id (openalex_to_metadata upper_work) = None
   \<and> arxiv_id (openalex_to_metadata lower_work) = None
   \<and> title (openalex_to_metadata upper_work) = ''Deep Learning''
   \<and> title (openalex_to_metadata lower_work) = ''Deep learning''
   \<and> spec_normalized_title (title (openalex_to_metadata upper_work))
       = spec_normalized_title (title (openalex_to_metadata lower_work))
   \<and> fst (search_merge no_email twin_net ''t'' 10 empty_world)
       = Inr ([doi_result (PaperMetadata_init ''Same title''),
               doi_result (PaperMetadata_init ''Same title'')], {})
   \<and> spec_dedup_key (PaperMetadata_init ''Same title'') = ''Same title''"
proof -
  have 1: "fst (search_merge no_email case_net ''deep learning'' 10 empty_world)
             = Inr ([doi_result (openalex_to_metadata upper_work),
                     doi_result (openalex_to_metadata lower_work)],
                    {''Deep learning'', ''Deep Learning''})"
    by (simp add: search_run case_net_def upper_work_def lower_work_def)
  have 2: "doi (openalex_to_metadata upper_work) = None
           \<and> doi (openalex_to_metadata lower_work) = None
           \<and> arxiv_id (openalex_to_metadata upper_work) = None
           \<and> arxiv_id (openalex_to_metadata lower_work) = None
           \<and> title (openalex_to_metadata upper_work) = ''Deep Learning''
           \<and> title (openalex_to_metadata lower_work) = ''Deep learning''"
    by (simp add: openalex_to_metadata_def openalex_doi_def upper_work_def lower_work_def)
  have 3: "spec_normalized_title (title (openalex_to_metadata upper_work))
             = spec_normalized_title (title (openalex_to_metadata lower_work))"
    by code_simp
  have 4: "fst (search_merge no_email twin_net ''t'' 10 empty_world)
             = Inr ([doi_result (PaperMetadata_init ''Same title''),
                     doi_result (PaperMetadata_init ''Same title'')], {})"
    by (simp add: search_run twin_net_def untitled_meta)
  have 5: "spec_dedup_key (PaperMetadata_init ''Same title'') = ''Same title''"
    by (simp add: spec_dedup_key_def PaperMetadata_init_def)
  from 1 2 3 4 5 show ?thesis by blast
qed

section \<open>Ad-hoc search: two providers with the same DOI\<close>







end
